theory Spec2Isabelle
  imports Complex_Main "HOL-Library.Word" "HOL-Library.Multiset"
begin

text \<open>
  A model of the blog API of \<open>src/index.ts\<close>: the slug generator, the storage with the
  constraints of its schema, the statements the post and comment handlers run, the
  handlers themselves and the routes in front of them.
\<close>

section \<open>Strings of the host language\<close>

text \<open>
  A string of the program is a sequence of 16-bit code units. Literals of the source are
  written through \<open>js\<close>, which embeds an ASCII literal.
\<close>

type_synonym jschar = "16 word"
type_synonym jsstring = "jschar list"

definition js :: "string \<Rightarrow> jsstring" where
  "js s = map (\<lambda>c. of_nat (of_char c)) s"

definition hyphen :: jschar where
  "hyphen = 0x2D"

text \<open>The character class \<open>[a-z0-9]\<close> of the slug generator's first pattern.\<close>

definition is_lower_alnum :: "jschar \<Rightarrow> bool" where
  "is_lower_alnum c = ((0x61 \<le> c \<and> c \<le> 0x7A) \<or> (0x30 \<le> c \<and> c \<le> 0x39))"

text \<open>
  \<open>String.prototype.toLowerCase\<close> is a builtin whose case tables are not part of the
  repository: the slug generator takes it as its first argument \<open>lc\<close>. The function
  below is its restriction to ASCII (\<open>A\<close>-\<open>Z\<close> to \<open>a\<close>-\<open>z\<close>, every other code unit kept),
  used wherever a concrete run is evaluated.
\<close>

definition ascii_lower_char :: "jschar \<Rightarrow> jschar" where
  "ascii_lower_char c = (if 0x41 \<le> c \<and> c \<le> 0x5A then c + 0x20 else c)"

definition ascii_toLowerCase :: "jsstring \<Rightarrow> jsstring" where
  "ascii_toLowerCase s = map ascii_lower_char s"

section \<open>Slug generator\<close>

text \<open>
  \<open>.replace(/[^a-z0-9]+/g, '-')\<close>: scanning from the left, every maximal run of code
  units outside \<open>[a-z0-9]\<close> is replaced by one hyphen.
\<close>

function replace_non_alnum_runs :: "jsstring \<Rightarrow> jsstring" where
  "replace_non_alnum_runs [] = []"
| "replace_non_alnum_runs (c # cs) =
     (if is_lower_alnum c then c # replace_non_alnum_runs cs
      else hyphen # replace_non_alnum_runs (dropWhile (\<lambda>d. \<not> is_lower_alnum d) cs))"
  by pat_completeness auto
termination
  by (relation "measure length") (auto simp: length_dropWhile_le less_Suc_eq_le)

text \<open>
  \<open>.replace(/(^-|-$)/g, '')\<close>: a hyphen at the first position is removed; then a hyphen
  at the last position of what is left is removed.
\<close>

definition strip_leading_hyphen :: "jsstring \<Rightarrow> jsstring" where
  "strip_leading_hyphen s = (case s of [] \<Rightarrow> [] | c # cs \<Rightarrow> if c = hyphen then cs else s)"

definition strip_trailing_hyphen :: "jsstring \<Rightarrow> jsstring" where
  "strip_trailing_hyphen s = (if s \<noteq> [] \<and> last s = hyphen then butlast s else s)"

definition strip_edge_hyphens :: "jsstring \<Rightarrow> jsstring" where
  "strip_edge_hyphens s = strip_trailing_hyphen (strip_leading_hyphen s)"

definition generateSlug :: "(jsstring \<Rightarrow> jsstring) \<Rightarrow> jsstring \<Rightarrow> jsstring" where
  "generateSlug lc title = strip_edge_hyphens (replace_non_alnum_runs (lc title))"

text \<open>The shape of a slug: alphabet, no doubled hyphen, no hyphen at either end.\<close>

definition slug_char :: "jschar \<Rightarrow> bool" where
  "slug_char c = (is_lower_alnum c \<or> c = hyphen)"

fun no_double_hyphen :: "jsstring \<Rightarrow> bool" where
  "no_double_hyphen (a # b # cs) = (\<not> (a = hyphen \<and> b = hyphen) \<and> no_double_hyphen (b # cs))"
| "no_double_hyphen _ = True"

definition no_edge_hyphen :: "jsstring \<Rightarrow> bool" where
  "no_edge_hyphen s = (s = [] \<or> (hd s \<noteq> hyphen \<and> last s \<noteq> hyphen))"

definition slug_shaped :: "jsstring \<Rightarrow> bool" where
  "slug_shaped s = (list_all slug_char s \<and> no_double_hyphen s \<and> no_edge_hyphen s)"

section \<open>Numbers and \<open>parseInt\<close>\<close>

text \<open>
  The numbers of the host are doubles. Those the handlers compute with are integer-valued
  (page, limit, offset, row counts, ids) or the non-finite values \<open>NaN\<close>, \<open>Infinity\<close> and
  \<open>-Infinity\<close>. A number is an \<open>int option\<close>: \<open>Some n\<close> is the double whose value is the
  integer \<open>n\<close>, \<open>None\<close> stands for the three non-finite values, which the handlers
  never tell apart (all three serialise to \<open>null\<close>), and \<open>-0\<close> is \<open>0\<close>.
\<close>

type_synonym jsnum = "int option"

text \<open>
  The double nearest to an integer: integers of magnitude below \<open>2^53\<close> are doubles;
  a larger one keeps its 53 leading bits, rounded to nearest with ties to the even
  neighbour, and is \<open>Infinity\<close> from \<open>2^1024\<close> on. \<open>excess_bits a\<close> is the number of low
  bits that \<open>a\<close> has beyond 53.
\<close>

function excess_bits :: "int \<Rightarrow> nat" where
  "excess_bits a = (if a < 2 ^ 53 then 0 else Suc (excess_bits (a div 2)))"
  by pat_completeness auto
termination
  by (relation "measure nat") auto

declare excess_bits.simps [simp del]

definition to_double :: "int \<Rightarrow> jsnum" where
  "to_double n =
     (let a = \<bar>n\<bar>;
          k = excess_bits a;
          q = a div 2 ^ k;
          r = a mod 2 ^ k;
          up = (2 * r > 2 ^ k \<or> (2 * r = 2 ^ k \<and> odd q));
          m = (if up then q + 1 else q) * 2 ^ k
      in if m \<ge> 2 ^ 1024 then None
         else Some (if n < 0 then - m else m))"

text \<open>
  \<open>a - b\<close> and \<open>a * b\<close> on integer-valued doubles: the exact result, rounded to a double.
\<close>

definition js_sub :: "jsnum \<Rightarrow> jsnum \<Rightarrow> jsnum" where
  "js_sub a b = (case (a, b) of (Some x, Some y) \<Rightarrow> to_double (x - y) | _ \<Rightarrow> None)"

definition js_mul :: "jsnum \<Rightarrow> jsnum \<Rightarrow> jsnum" where
  "js_mul a b = (case (a, b) of (Some x, Some y) \<Rightarrow> to_double (x * y) | _ \<Rightarrow> None)"

text \<open>
  \<open>Math.ceil(a / b)\<close>, for a row count \<open>a\<close> (non-negative, below \<open>2^53\<close>, where the
  rounding of the quotient does not reach its ceiling) and an integer-valued \<open>b\<close>: the
  quotient by zero is \<open>Infinity\<close>, \<open>-Infinity\<close> or \<open>NaN\<close>, and its ceiling is the same
  non-finite value.
\<close>

definition js_ceil_div :: "jsnum \<Rightarrow> jsnum \<Rightarrow> jsnum" where
  "js_ceil_div a b =
     (case (a, b) of
        (Some x, Some y) \<Rightarrow> if y = 0 then None else Some (- ((- x) div y))
      | _ \<Rightarrow> None)"

text \<open>White space skipped by \<open>parseInt\<close> (the language's white space and line terminators).\<close>

definition is_js_whitespace :: "jschar \<Rightarrow> bool" where
  "is_js_whitespace c =
     (c \<in> set [0x09, 0x0A, 0x0B, 0x0C, 0x0D, 0x20, 0xA0, 0x1680, 0x2028, 0x2029,
                 0x202F, 0x205F, 0x3000, 0xFEFF]
      \<or> (0x2000 \<le> c \<and> c \<le> 0x200A))"

definition digit_value :: "jschar \<Rightarrow> nat option" where
  "digit_value c =
     (if 0x30 \<le> c \<and> c \<le> 0x39 then Some (unat c - 0x30)
      else if 0x61 \<le> c \<and> c \<le> 0x7A then Some (unat c - 0x61 + 10)
      else if 0x41 \<le> c \<and> c \<le> 0x5A then Some (unat c - 0x41 + 10)
      else None)"

definition is_digit_in :: "nat \<Rightarrow> jschar \<Rightarrow> bool" where
  "is_digit_in radix c = (case digit_value c of Some v \<Rightarrow> v < radix | None \<Rightarrow> False)"

definition digits_value :: "nat \<Rightarrow> jsstring \<Rightarrow> int" where
  "digits_value radix z =
     foldl (\<lambda>acc c. acc * int radix + (case digit_value c of Some v \<Rightarrow> int v | None \<Rightarrow> 0))
       0 z"

text \<open>
  \<open>parseInt(s)\<close> with no radix: leading white space is skipped, one sign is read, a
  \<open>0x\<close>/\<open>0X\<close> prefix selects radix 16, and the longest prefix of digits is the value,
  as the double nearest to it; with no digit the result is \<open>NaN\<close>.
\<close>

definition parseInt :: "jsstring \<Rightarrow> jsnum" where
  "parseInt s =
     (let s1 = dropWhile is_js_whitespace s;
          negative = (case s1 of c # _ \<Rightarrow> c = 0x2D | [] \<Rightarrow> False);
          s2 = (case s1 of c # cs \<Rightarrow> if c = 0x2B \<or> c = 0x2D then cs else s1 | [] \<Rightarrow> []);
          hex = (case s2 of a # b # _ \<Rightarrow> a = 0x30 \<and> (b = 0x78 \<or> b = 0x58) | _ \<Rightarrow> False);
          radix = (if hex then 16 else 10);
          s3 = (if hex then drop 2 s2 else s2);
          z = takeWhile (is_digit_in radix) s3
      in if z = [] then None
         else (case to_double (digits_value radix z) of
                 None \<Rightarrow> None
               | Some v \<Rightarrow> Some (if negative then - v else v)))"

text \<open>\<open>x || d\<close> on an optional string: an absent or empty string gives the default.\<close>

definition or_default :: "jsstring option \<Rightarrow> jsstring \<Rightarrow> jsstring" where
  "or_default x d = (case x of None \<Rightarrow> d | Some s \<Rightarrow> if s = [] then d else s)"

text \<open>\<open>if (x)\<close> on an optional string: present and not empty.\<close>

definition truthy :: "jsstring option \<Rightarrow> bool" where
  "truthy x = (case x of None \<Rightarrow> False | Some s \<Rightarrow> s \<noteq> [])"

section \<open>Storage\<close>

text \<open>
  A stored value is \<open>NULL\<close>, an integer or a text; every column but the integer
  primary key holds any of them, as in the storage engine, and the table definitions
  constrain them.
\<close>

datatype sqlval = SNull | SInt int | SText jsstring

text \<open>\<open>a = b\<close> in a \<open>WHERE\<close> clause: true only between two equal non-null values.\<close>

definition sql_eq :: "sqlval \<Rightarrow> sqlval \<Rightarrow> bool" where
  "sql_eq a b = (a \<noteq> SNull \<and> b \<noteq> SNull \<and> a = b)"

text \<open>A number bound to a statement: a non-finite number is bound as \<open>NULL\<close>.\<close>

definition bind_num :: "jsnum \<Rightarrow> sqlval" where
  "bind_num n = (case n of Some i \<Rightarrow> SInt i | None \<Rightarrow> SNull)"

text \<open>
  The order of \<open>ORDER BY\<close>: \<open>NULL\<close> first, then integers, then texts; texts are
  compared unit by unit.
\<close>

fun text_le :: "jsstring \<Rightarrow> jsstring \<Rightarrow> bool" where
  "text_le [] _ = True"
| "text_le (a # as) [] = False"
| "text_le (a # as) (b # bs) = (a < b \<or> (a = b \<and> text_le as bs))"

fun sql_le :: "sqlval \<Rightarrow> sqlval \<Rightarrow> bool" where
  "sql_le SNull _ = True"
| "sql_le (SInt i) SNull = False"
| "sql_le (SInt i) (SInt j) = (i \<le> j)"
| "sql_le (SInt i) (SText t) = True"
| "sql_le (SText s) (SText t) = text_le s t"
| "sql_le (SText s) _ = False"

text \<open>
  \<open>ORDER BY\<close> as a stable insertion sort under a comparison \<open>precedes a b\<close> ("a may stand
  before b"); rows that compare equal keep the order of the scan.
\<close>

fun insert_by :: "('a \<Rightarrow> 'a \<Rightarrow> bool) \<Rightarrow> 'a \<Rightarrow> 'a list \<Rightarrow> 'a list" where
  "insert_by precedes x [] = [x]"
| "insert_by precedes x (y # ys) =
     (if precedes x y then x # y # ys else y # insert_by precedes x ys)"

definition order_by :: "('a \<Rightarrow> 'a \<Rightarrow> bool) \<Rightarrow> 'a list \<Rightarrow> 'a list" where
  "order_by precedes xs = foldr (insert_by precedes) xs []"

text \<open>
  \<open>LIMIT l OFFSET o\<close>: a negative offset counts as zero and a negative limit as no limit;
  a bound that is not an integer of the storage, which are those of 64 bits, is an error
  of the statement.
\<close>

definition in_int64 :: "int \<Rightarrow> bool" where
  "in_int64 n = (- (2 ^ 63) \<le> n \<and> n < 2 ^ 63)"

definition limit_offset :: "jsnum \<Rightarrow> jsnum \<Rightarrow> 'a list \<Rightarrow> 'a list option" where
  "limit_offset l off xs =
     (case (l, off) of
        (Some n, Some k) \<Rightarrow>
          if in_int64 n \<and> in_int64 k
          then (let ys = (if int (length xs) \<le> k then [] else drop (nat k) xs)
                in Some (if n < 0 \<or> int (length ys) \<le> n then ys else take (nat n) ys))
          else None
      | _ \<Rightarrow> None)"

text \<open>
  \<open>x LIKE pattern\<close>: \<open>%\<close> matches any sequence of characters, \<open>_\<close> any one character,
  every other unit itself, ASCII letters without regard to case. The storage steps over
  characters: a surrogate pair is one character, which \<open>skip_char\<close> passes as a whole.
\<close>

definition skip_char :: "jschar \<Rightarrow> jsstring \<Rightarrow> jsstring" where
  "skip_char c cs =
     (case cs of
        c' # cs' \<Rightarrow>
          if 0xD800 \<le> c \<and> c \<le> 0xDBFF \<and> 0xDC00 \<le> c' \<and> c' \<le> 0xDFFF then cs' else cs
      | [] \<Rightarrow> [])"

function like_match :: "jsstring \<Rightarrow> jsstring \<Rightarrow> bool" where
  "like_match [] t = (t = [])"
| "like_match (p # ps) [] = (p = 0x25 \<and> like_match ps [])"
| "like_match (p # ps) (c # cs) =
     (if p = 0x25 then like_match ps (c # cs) \<or> like_match (p # ps) (skip_char c cs)
      else if p = 0x5F then like_match ps (skip_char c cs)
      else ascii_lower_char p = ascii_lower_char c \<and> like_match ps cs)"
  by pat_completeness auto
termination
  by (relation "measure (\<lambda>(p, t). length p + length t)")
    (auto simp: skip_char_def split: list.splits)

definition sql_like :: "sqlval \<Rightarrow> jsstring \<Rightarrow> bool" where
  "sql_like v pattern = (case v of SText t \<Rightarrow> like_match pattern t | _ \<Rightarrow> False)"

subsection \<open>Tables\<close>

text \<open>
  The three tables of the schema. \<open>posts_seq\<close> is the \<open>AUTOINCREMENT\<close> counter of
  \<open>posts\<close>: the largest id ever given out.
\<close>

record post_row =
  p_id :: int
  p_title :: sqlval
  p_slug :: sqlval
  p_content :: sqlval
  p_excerpt :: sqlval
  p_author :: sqlval
  p_status :: sqlval
  p_featured_image :: sqlval
  p_tags :: sqlval
  p_category_id :: sqlval
  p_created_at :: sqlval
  p_updated_at :: sqlval
  p_published_at :: sqlval

record category_row =
  c_id :: int
  c_name :: sqlval
  c_slug :: sqlval
  c_description :: sqlval
  c_created_at :: sqlval

record comment_row =
  m_id :: int
  m_post_id :: sqlval
  m_author_name :: sqlval
  m_author_email :: sqlval
  m_content :: sqlval
  m_status :: sqlval
  m_created_at :: sqlval

record db =
  posts :: "post_row list"
  categories :: "category_row list"
  comments :: "comment_row list"
  posts_seq :: int

datatype sql_error =
  UniqueConstraintFailed | NotNullConstraintFailed | ForeignKeyConstraintFailed
  | NoSuchColumn | DatatypeMismatch

text \<open>\<open>error.message?.includes('UNIQUE constraint failed')\<close>\<close>

definition mentions_unique :: "sql_error \<Rightarrow> bool" where
  "mentions_unique e = (e = UniqueConstraintFailed)"

text \<open>
  The constraints of table \<open>posts\<close> on a row \<open>r\<close> that is to stand beside the rows
  \<open>others\<close>: \<open>NOT NULL\<close> on title, slug, content and author, \<open>UNIQUE\<close> on slug, and the
  foreign key of \<open>category_id\<close> (the binding enforces foreign keys). The first violated
  one is the error of the statement. The empty text is a value like any other: only
  \<open>NULL\<close> violates \<open>NOT NULL\<close>.
\<close>

definition post_not_null_ok :: "post_row \<Rightarrow> bool" where
  "post_not_null_ok r =
     (p_title r \<noteq> SNull \<and> p_slug r \<noteq> SNull \<and> p_content r \<noteq> SNull \<and> p_author r \<noteq> SNull)"

definition slug_taken :: "post_row list \<Rightarrow> sqlval \<Rightarrow> bool" where
  "slug_taken others v = list_ex (\<lambda>r. sql_eq (p_slug r) v) others"

definition category_ref_ok :: "db \<Rightarrow> sqlval \<Rightarrow> bool" where
  "category_ref_ok d v = (v = SNull \<or> list_ex (\<lambda>c. sql_eq (SInt (c_id c)) v) (categories d))"

definition check_post :: "db \<Rightarrow> post_row list \<Rightarrow> post_row \<Rightarrow> sql_error option" where
  "check_post d others r =
     (if \<not> post_not_null_ok r then Some NotNullConstraintFailed
      else if slug_taken others (p_slug r) then Some UniqueConstraintFailed
      else if \<not> category_ref_ok d (p_category_id r) then Some ForeignKeyConstraintFailed
      else None)"

subsection \<open>Statement results\<close>

text \<open>
  The storage binding is a D1 database (\<open>DB: D1Database\<close>). What its \<open>run()\<close> resolves
  to is an object \<open>{success, meta}\<close>; the counters of the statement, \<open>changes\<close> and
  \<open>last_row_id\<close>, are properties of \<open>meta\<close> (the create handlers read
  \<open>result.meta.last_row_id\<close>), and the object has no property \<open>changes\<close> of its own.
  Reading a property an object does not have gives \<open>undefined\<close>.
\<close>

datatype jsval = JUndefined | JNum int | JBool bool | JObj "(string \<times> jsval) list"

definition get_prop :: "jsval \<Rightarrow> string \<Rightarrow> jsval" where
  "get_prop v k =
     (case v of
        JObj kvs \<Rightarrow> (case map_of kvs k of Some x \<Rightarrow> x | None \<Rightarrow> JUndefined)
      | _ \<Rightarrow> JUndefined)"

definition run_result :: "int \<Rightarrow> int \<Rightarrow> jsval" where
  "run_result changes last_row_id =
     JObj [(''success'', JBool True),
           (''meta'', JObj [(''changes'', JNum changes), (''last_row_id'', JNum last_row_id)])]"

subsection \<open>Statements on \<open>posts\<close>\<close>

definition last_post_id :: "db \<Rightarrow> int" where
  "last_post_id d = foldr max (map p_id (posts d)) (posts_seq d)"

text \<open>\<open>INSERT INTO posts (...) VALUES (...)\<close>: the row gets the next id.\<close>

definition insert_post :: "db \<Rightarrow> post_row \<Rightarrow> sql_error + (db \<times> jsval)" where
  "insert_post d r =
     (let new_id = last_post_id d + 1; r' = r\<lparr>p_id := new_id\<rparr>
      in case check_post d (posts d) r' of
           Some e \<Rightarrow> Inl e
         | None \<Rightarrow> Inr (d\<lparr>posts := posts d @ [r'], posts_seq := new_id\<rparr>, run_result 1 new_id))"

text \<open>\<open>SELECT * FROM posts WHERE id = ?\<close> with \<open>first()\<close>.\<close>

definition select_post_by_id :: "db \<Rightarrow> sqlval \<Rightarrow> post_row option" where
  "select_post_by_id d v = find (\<lambda>r. sql_eq (SInt (p_id r)) v) (posts d)"

text \<open>One assignment \<open>column = ?\<close> of an \<open>UPDATE posts SET ...\<close>.\<close>

definition set_column :: "string \<Rightarrow> sqlval \<Rightarrow> post_row \<Rightarrow> sql_error + post_row" where
  "set_column col v r =
     (if col = ''id'' then (case v of SInt i \<Rightarrow> Inr (r\<lparr>p_id := i\<rparr>) | _ \<Rightarrow> Inl DatatypeMismatch)
      else if col = ''title'' then Inr (r\<lparr>p_title := v\<rparr>)
      else if col = ''slug'' then Inr (r\<lparr>p_slug := v\<rparr>)
      else if col = ''content'' then Inr (r\<lparr>p_content := v\<rparr>)
      else if col = ''excerpt'' then Inr (r\<lparr>p_excerpt := v\<rparr>)
      else if col = ''author'' then Inr (r\<lparr>p_author := v\<rparr>)
      else if col = ''status'' then Inr (r\<lparr>p_status := v\<rparr>)
      else if col = ''featured_image'' then Inr (r\<lparr>p_featured_image := v\<rparr>)
      else if col = ''tags'' then Inr (r\<lparr>p_tags := v\<rparr>)
      else if col = ''category_id'' then Inr (r\<lparr>p_category_id := v\<rparr>)
      else if col = ''created_at'' then Inr (r\<lparr>p_created_at := v\<rparr>)
      else if col = ''updated_at'' then Inr (r\<lparr>p_updated_at := v\<rparr>)
      else if col = ''published_at'' then Inr (r\<lparr>p_published_at := v\<rparr>)
      else Inl NoSuchColumn)"

fun set_columns :: "(string \<times> sqlval) list \<Rightarrow> post_row \<Rightarrow> sql_error + post_row" where
  "set_columns [] r = Inr r"
| "set_columns ((col, v) # as) r =
     (case set_column col v r of Inl e \<Rightarrow> Inl e | Inr r' \<Rightarrow> set_columns as r')"

text \<open>
  \<open>UPDATE posts SET ... WHERE id = ?\<close>: the rows are taken in order; each matching
  row is rewritten, assignment by assignment, and checked against the rows already passed
  and those still to come. An error leaves the table as it was.
\<close>

fun update_rows ::
  "db \<Rightarrow> (string \<times> sqlval) list \<Rightarrow> sqlval \<Rightarrow> post_row list \<Rightarrow> post_row list
     \<Rightarrow> sql_error + (post_row list \<times> int)" where
  "update_rows d as idv seen [] = Inr (seen, 0)"
| "update_rows d as idv seen (r # rs) =
     (if sql_eq (SInt (p_id r)) idv then
        (case set_columns as r of
           Inl e \<Rightarrow> Inl e
         | Inr r' \<Rightarrow>
             (case check_post d (seen @ rs) r' of
                Some e \<Rightarrow> Inl e
              | None \<Rightarrow>
                  (case update_rows d as idv (seen @ [r']) rs of
                     Inl e \<Rightarrow> Inl e
                   | Inr (out, n) \<Rightarrow> Inr (out, n + 1))))
      else update_rows d as idv (seen @ [r]) rs)"

definition update_post_stmt ::
  "db \<Rightarrow> (string \<times> sqlval) list \<Rightarrow> sqlval \<Rightarrow> sql_error + (db \<times> jsval)" where
  "update_post_stmt d as idv =
     (case update_rows d as idv [] (posts d) of
        Inl e \<Rightarrow> Inl e
      | Inr (out, n) \<Rightarrow> Inr (d\<lparr>posts := out\<rparr>, run_result n (last_post_id d)))"

text \<open>
  \<open>DELETE FROM posts WHERE id = ?\<close>: the comments of a deleted post go with it
  (\<open>ON DELETE CASCADE\<close>); \<open>changes\<close> counts the deleted posts and the comments
  deleted with them.
\<close>

definition delete_post_stmt :: "db \<Rightarrow> sqlval \<Rightarrow> db \<times> jsval" where
  "delete_post_stmt d idv =
     (let gone = filter (\<lambda>r. sql_eq (SInt (p_id r)) idv) (posts d);
          kept = filter (\<lambda>r. \<not> sql_eq (SInt (p_id r)) idv) (posts d);
          orphan = (\<lambda>m. list_ex (\<lambda>r. sql_eq (SInt (p_id r)) (m_post_id m)) gone)
      in (d\<lparr>posts := kept, comments := filter (\<lambda>m. \<not> orphan m) (comments d)\<rparr>,
          run_result (int (length gone) + int (length (filter orphan (comments d))))
            (last_post_id d)))"

subsection \<open>Queries of the listing handlers\<close>

text \<open>\<open>FROM posts p LEFT JOIN categories c ON p.category_id = c.id\<close>\<close>

definition posts_left_join :: "db \<Rightarrow> (post_row \<times> category_row option) list" where
  "posts_left_join d =
     concat (map (\<lambda>p.
       (let ms = filter (\<lambda>c. sql_eq (p_category_id p) (SInt (c_id c))) (categories d)
        in if ms = [] then [(p, None)] else map (\<lambda>c. (p, Some c)) ms)) (posts d))"

text \<open>The category row a post refers to, if there is one.\<close>

definition category_of :: "db \<Rightarrow> post_row \<Rightarrow> category_row option" where
  "category_of d p = find (\<lambda>c. SInt (c_id c) = p_category_id p) (categories d)"

text \<open>The pattern \<open>%${search}%\<close>.\<close>

definition search_pattern :: "jsstring \<Rightarrow> jsstring" where
  "search_pattern search = 0x25 # search @ [0x25]"

definition search_clause :: "jsstring option \<Rightarrow> post_row \<Rightarrow> bool" where
  "search_clause search p =
     (case search of
        Some s \<Rightarrow> s = [] \<or> sql_like (p_title p) (search_pattern s)
                          \<or> sql_like (p_content p) (search_pattern s)
      | None \<Rightarrow> True)"

text \<open>
  The \<open>WHERE\<close> clause of the list query, on a joined row: \<open>p.status = ?\<close>, then
  \<open>AND c.slug = ?\<close> if a category is given, then the search clause if a search is given.
\<close>

definition list_where ::
  "jsstring \<Rightarrow> jsstring option \<Rightarrow> jsstring option \<Rightarrow> post_row \<times> category_row option \<Rightarrow> bool" where
  "list_where status category search row =
     (case row of (p, c) \<Rightarrow>
        sql_eq (p_status p) (SText status)
        \<and> (case category of
             Some cat \<Rightarrow> cat = [] \<or> sql_eq (case c of Some c' \<Rightarrow> c_slug c' | None \<Rightarrow> SNull) (SText cat)
           | None \<Rightarrow> True)
        \<and> search_clause search p)"

text \<open>
  The \<open>WHERE\<close> clause of the count query, on a post: \<open>p.status = ?\<close>, then
  \<open>AND EXISTS (SELECT 1 FROM categories c WHERE c.id = p.category_id AND c.slug = ?)\<close>
  if a category is given, then the search clause if a search is given.
\<close>

definition count_where ::
  "db \<Rightarrow> jsstring \<Rightarrow> jsstring option \<Rightarrow> jsstring option \<Rightarrow> post_row \<Rightarrow> bool" where
  "count_where d status category search p =
     (sql_eq (p_status p) (SText status)
      \<and> (case category of
           Some cat \<Rightarrow> cat = [] \<or>
             list_ex (\<lambda>c. sql_eq (SInt (c_id c)) (p_category_id p) \<and> sql_eq (c_slug c) (SText cat))
               (categories d)
         | None \<Rightarrow> True)
      \<and> search_clause search p)"

text \<open>\<open>ORDER BY k DESC\<close> and \<open>ORDER BY k ASC\<close> on one key, and on two keys.\<close>

definition asc_by :: "('a \<Rightarrow> sqlval) \<Rightarrow> 'a \<Rightarrow> 'a \<Rightarrow> bool" where
  "asc_by k a b = sql_le (k a) (k b)"

definition desc_by :: "('a \<Rightarrow> sqlval) \<Rightarrow> 'a \<Rightarrow> 'a \<Rightarrow> bool" where
  "desc_by k a b = sql_le (k b) (k a)"

definition desc_desc_by :: "('a \<Rightarrow> sqlval) \<Rightarrow> ('a \<Rightarrow> sqlval) \<Rightarrow> 'a \<Rightarrow> 'a \<Rightarrow> bool" where
  "desc_desc_by k1 k2 a b =
     (if sql_le (k1 a) (k1 b) \<and> sql_le (k1 b) (k1 a) then sql_le (k2 b) (k2 a)
      else sql_le (k1 b) (k1 a))"

text \<open>The list query without \<open>ORDER BY\<close>, \<open>LIMIT\<close> and \<open>OFFSET\<close>, and the whole of it.\<close>

definition list_matching ::
  "db \<Rightarrow> jsstring \<Rightarrow> jsstring option \<Rightarrow> jsstring option \<Rightarrow> (post_row \<times> category_row option) list" where
  "list_matching d status category search =
     filter (list_where status category search) (posts_left_join d)"

definition list_query ::
  "db \<Rightarrow> jsstring \<Rightarrow> jsstring option \<Rightarrow> jsstring option \<Rightarrow> jsnum \<Rightarrow> jsnum
     \<Rightarrow> (post_row \<times> category_row option) list option" where
  "list_query d status category search lmt off =
     limit_offset lmt off
       (order_by (desc_desc_by (\<lambda>r. p_published_at (fst r)) (\<lambda>r. p_created_at (fst r)))
          (list_matching d status category search))"

definition count_query :: "db \<Rightarrow> jsstring \<Rightarrow> jsstring option \<Rightarrow> jsstring option \<Rightarrow> int" where
  "count_query d status category search =
     int (length (filter (count_where d status category search) (posts d)))"

text \<open>
  \<open>SELECT * FROM comments WHERE post_id = ? AND status = ? ORDER BY created_at ASC\<close>
\<close>

definition comments_of_post :: "db \<Rightarrow> sqlval \<Rightarrow> sqlval \<Rightarrow> comment_row list" where
  "comments_of_post d post_id status =
     order_by (asc_by m_created_at)
       (filter (\<lambda>m. sql_eq (m_post_id m) post_id \<and> sql_eq (m_status m) status) (comments d))"

text \<open>
  \<open>SELECT c.*, p.title as post_title, p.slug as post_slug FROM comments c
  JOIN posts p ON c.post_id = p.id WHERE c.status = ? ORDER BY c.created_at DESC
  LIMIT ? OFFSET ?\<close>
\<close>

definition comments_join_posts :: "db \<Rightarrow> (comment_row \<times> post_row) list" where
  "comments_join_posts d =
     concat (map (\<lambda>m. map (\<lambda>p. (m, p))
       (filter (\<lambda>p. sql_eq (m_post_id m) (SInt (p_id p))) (posts d))) (comments d))"

definition admin_comments_query ::
  "db \<Rightarrow> jsstring \<Rightarrow> jsnum \<Rightarrow> jsnum \<Rightarrow> (comment_row \<times> post_row) list option" where
  "admin_comments_query d status lmt off =
     limit_offset lmt off
       (order_by (desc_by (\<lambda>r. m_created_at (fst r)))
          (filter (\<lambda>r. sql_eq (m_status (fst r)) (SText status)) (comments_join_posts d)))"

definition admin_comments_count :: "db \<Rightarrow> jsstring \<Rightarrow> int" where
  "admin_comments_count d status =
     int (length (filter (\<lambda>m. sql_eq (m_status m) (SText status)) (comments d)))"

section \<open>Host and responses\<close>

text \<open>
  The builtins and middleware the repository calls but does not define:
  \<open>toLowerCase\<close>; \<open>new Date(v).toISOString()\<close>, which is \<open>None\<close> when it throws on an
  invalid date; the URL test of the validation library; and the bearer check of a
  guarded route, which maps the \<open>Authorization\<close> header to the status of a refusal or to
  \<open>None\<close> when the request may pass.
\<close>

record host =
  toLowerCase :: "jsstring \<Rightarrow> jsstring"
  date_toISOString :: "sqlval \<Rightarrow> jsstring option"
  is_url :: "jsstring \<Rightarrow> bool"
  bearerAuth :: "jsstring option \<Rightarrow> nat option"

text \<open>A truthy stored value: not \<open>NULL\<close>, not \<open>0\<close>, not the empty text.\<close>

definition sql_truthy :: "sqlval \<Rightarrow> bool" where
  "sql_truthy v = (case v of SNull \<Rightarrow> False | SInt i \<Rightarrow> i \<noteq> 0 | SText t \<Rightarrow> t \<noteq> [])"

text \<open>
  The object \<open>formatPost\<close> returns: the columns of the row as selected (\<open>...post\<close>, with
  \<open>category_name\<close> and \<open>category_slug\<close> when the query selects them), and the four
  properties it overwrites. \<open>j_published_at = None\<close> is \<open>undefined\<close>.
\<close>

record post_json =
  j_columns :: post_row
  j_category :: "(sqlval \<times> sqlval) option"
  j_tags :: sqlval
  j_created_at :: jsstring
  j_updated_at :: jsstring
  j_published_at :: "jsstring option"

definition formatPost :: "host \<Rightarrow> post_row \<Rightarrow> (sqlval \<times> sqlval) option \<Rightarrow> post_json option" where
  "formatPost h post cat =
     (case date_toISOString h (p_created_at post) of
        None \<Rightarrow> None
      | Some created \<Rightarrow>
          (case date_toISOString h (p_updated_at post) of
             None \<Rightarrow> None
           | Some updated \<Rightarrow>
               (if sql_truthy (p_published_at post) then
                  (case date_toISOString h (p_published_at post) of
                     None \<Rightarrow> None
                   | Some published \<Rightarrow>
                       Some \<lparr>j_columns = post, j_category = cat,
                             j_tags = (if sql_truthy (p_tags post) then p_tags post else SText []),
                             j_created_at = created, j_updated_at = updated,
                             j_published_at = Some published\<rparr>)
                else
                  Some \<lparr>j_columns = post, j_category = cat,
                        j_tags = (if sql_truthy (p_tags post) then p_tags post else SText []),
                        j_created_at = created, j_updated_at = updated,
                        j_published_at = None\<rparr>)))"

fun format_all :: "host \<Rightarrow> (post_row \<times> category_row option) list \<Rightarrow> post_json list option" where
  "format_all h [] = Some []"
| "format_all h ((p, c) # rs) =
     (case formatPost h p
             (Some (case c of Some c' \<Rightarrow> (c_name c', c_slug c') | None \<Rightarrow> (SNull, SNull))) of
        None \<Rightarrow> None
      | Some j \<Rightarrow> (case format_all h rs of None \<Rightarrow> None | Some rest \<Rightarrow> Some (j # rest)))"

record pagination =
  pg_page :: jsnum
  pg_limit :: jsnum
  pg_total :: jsnum
  pg_pages :: jsnum

datatype body =
  PostsBody "post_json list" pagination
  | PostBody post_json
  | PostCommentsBody post_json "comment_row list"
  | CommentsBody "comment_row list"
  | AdminCommentsBody "(comment_row \<times> post_row) list" pagination
  | MessageBody string
  | ErrorBody string
  | InvalidBody "string list"
  | Refused

type_synonym response = "nat \<times> body"

type_synonym query = "(jsstring \<times> jsstring) list"

text \<open>\<open>c.req.query(name)\<close>\<close>

definition query_param :: "query \<Rightarrow> string \<Rightarrow> jsstring option" where
  "query_param q name = map_of q (js name)"

section \<open>Handlers\<close>

subsection \<open>\<open>GET /api/posts\<close>\<close>

definition posts_page :: "query \<Rightarrow> jsnum" where
  "posts_page q = parseInt (or_default (query_param q ''page'') (js ''1''))"

definition posts_limit :: "query \<Rightarrow> jsnum" where
  "posts_limit q = parseInt (or_default (query_param q ''limit'') (js ''10''))"

definition posts_status :: "query \<Rightarrow> jsstring" where
  "posts_status q = or_default (query_param q ''status'') (js ''published'')"

definition posts_offset :: "query \<Rightarrow> jsnum" where
  "posts_offset q = js_mul (js_sub (posts_page q) (Some 1)) (posts_limit q)"

definition get_posts :: "host \<Rightarrow> db \<Rightarrow> query \<Rightarrow> response" where
  "get_posts h d q =
     (let page = posts_page q;
          limit = posts_limit q;
          status = posts_status q;
          category = query_param q ''category'';
          search = query_param q ''search'';
          offset = posts_offset q
      in case list_query d status category search limit offset of
           None \<Rightarrow> (500, ErrorBody ''Failed to fetch posts'')
         | Some rows \<Rightarrow>
             (let total = count_query d status category search
              in case format_all h rows of
                   None \<Rightarrow> (500, ErrorBody ''Failed to fetch posts'')
                 | Some ps \<Rightarrow>
                     (200, PostsBody ps
                        \<lparr>pg_page = page, pg_limit = limit, pg_total = Some total,
                         pg_pages = js_ceil_div (Some total) limit\<rparr>)))"

subsection \<open>\<open>GET /api/posts/:slug\<close>\<close>

definition get_post :: "host \<Rightarrow> db \<Rightarrow> jsstring \<Rightarrow> query \<Rightarrow> response" where
  "get_post h d slug q =
     (let includeComments = (query_param q ''comments'' = Some (js ''true''))
      in case find (\<lambda>r. sql_eq (p_slug (fst r)) (SText slug)
                        \<and> sql_eq (p_status (fst r)) (SText (js ''published'')))
                (posts_left_join d) of
           None \<Rightarrow> (404, ErrorBody ''Post not found'')
         | Some (p, c) \<Rightarrow>
             (case formatPost h p
                     (Some (case c of Some c' \<Rightarrow> (c_name c', c_slug c') | None \<Rightarrow> (SNull, SNull))) of
                None \<Rightarrow> (500, ErrorBody ''Failed to fetch post'')
              | Some j \<Rightarrow>
                  if includeComments
                  then (200, PostCommentsBody j
                               (comments_of_post d (SInt (p_id p)) (SText (js ''approved''))))
                  else (200, PostBody j)))"

subsection \<open>\<open>GET /api/posts/:postId/comments\<close> and \<open>GET /api/admin/comments\<close>\<close>

definition get_post_comments :: "db \<Rightarrow> jsstring \<Rightarrow> query \<Rightarrow> response" where
  "get_post_comments d postIdParam q =
     (let postId = parseInt postIdParam;
          status = or_default (query_param q ''status'') (js ''approved'')
      in (200, CommentsBody (comments_of_post d (bind_num postId) (SText status))))"

definition get_admin_comments :: "db \<Rightarrow> query \<Rightarrow> response" where
  "get_admin_comments d q =
     (let status = or_default (query_param q ''status'') (js ''pending'');
          page = parseInt (or_default (query_param q ''page'') (js ''1''));
          limit = parseInt (or_default (query_param q ''limit'') (js ''20''));
          offset = js_mul (js_sub page (Some 1)) limit
      in case admin_comments_query d status limit offset of
           None \<Rightarrow> (500, ErrorBody ''Failed to fetch comments'')
         | Some rows \<Rightarrow>
             (let total = admin_comments_count d status
              in (200, AdminCommentsBody rows
                    \<lparr>pg_page = page, pg_limit = limit, pg_total = Some total,
                     pg_pages = js_ceil_div (Some total) limit\<rparr>)))"

subsection \<open>Validation of a post body\<close>

text \<open>
  The JSON body of the two post handlers, each recognised property present or absent
  (unknown properties are stripped by the schema), and what \<open>postSchema\<close> and
  \<open>postSchema.partial()\<close> make of it: the names of the offending properties, or the
  parsed value.
\<close>

record post_body =
  b_title :: "jsstring option"
  b_content :: "jsstring option"
  b_excerpt :: "jsstring option"
  b_author :: "jsstring option"
  b_status :: "jsstring option"
  b_featured_image :: "jsstring option"
  b_tags :: "jsstring option"
  b_category_id :: "int option"

datatype post_status = Draft | Published

definition status_text :: "post_status \<Rightarrow> jsstring" where
  "status_text st = (case st of Draft \<Rightarrow> js ''draft'' | Published \<Rightarrow> js ''published'')"

definition parse_status :: "jsstring \<Rightarrow> post_status option" where
  "parse_status t =
     (if t = js ''draft'' then Some Draft
      else if t = js ''published'' then Some Published else None)"

record post_input =
  in_title :: jsstring
  in_content :: jsstring
  in_excerpt :: "jsstring option"
  in_author :: jsstring
  in_status :: post_status
  in_featured_image :: "jsstring option"
  in_tags :: "jsstring option"
  in_category_id :: "int option"

record post_patch =
  pt_title :: "jsstring option"
  pt_content :: "jsstring option"
  pt_excerpt :: "jsstring option"
  pt_author :: "jsstring option"
  pt_status :: "post_status option"
  pt_featured_image :: "jsstring option"
  pt_tags :: "jsstring option"
  pt_category_id :: "int option"

definition field_issue :: "bool \<Rightarrow> string \<Rightarrow> 'a option \<Rightarrow> ('a \<Rightarrow> bool) \<Rightarrow> string list" where
  "field_issue required name v ok =
     (case v of
        None \<Rightarrow> if required then [name] else []
      | Some x \<Rightarrow> if ok x then [] else [name])"

definition post_issues :: "host \<Rightarrow> bool \<Rightarrow> post_body \<Rightarrow> string list" where
  "post_issues h partial b =
     field_issue (\<not> partial) ''title'' (b_title b) (\<lambda>t. 1 \<le> length t \<and> length t \<le> 200)
     @ field_issue (\<not> partial) ''content'' (b_content b) (\<lambda>t. 1 \<le> length t)
     @ field_issue False ''excerpt'' (b_excerpt b) (\<lambda>t. length t \<le> 500)
     @ field_issue (\<not> partial) ''author'' (b_author b) (\<lambda>t. 1 \<le> length t \<and> length t \<le> 100)
     @ field_issue False ''status'' (b_status b) (\<lambda>t. parse_status t \<noteq> None)
     @ field_issue False ''featured_image'' (b_featured_image b) (is_url h)
     @ field_issue False ''tags'' (b_tags b) (\<lambda>t. True)
     @ field_issue False ''category_id'' (b_category_id b) (\<lambda>n. True)"

definition postSchema :: "host \<Rightarrow> post_body \<Rightarrow> string list + post_input" where
  "postSchema h b =
     (if post_issues h False b \<noteq> [] then Inl (post_issues h False b)
      else Inr \<lparr>in_title = (case b_title b of Some t \<Rightarrow> t | None \<Rightarrow> []),
                in_content = (case b_content b of Some t \<Rightarrow> t | None \<Rightarrow> []),
                in_excerpt = b_excerpt b,
                in_author = (case b_author b of Some t \<Rightarrow> t | None \<Rightarrow> []),
                in_status = (case b_status b of
                               Some t \<Rightarrow> (if t = js ''published'' then Published else Draft)
                             | None \<Rightarrow> Draft),
                in_featured_image = b_featured_image b,
                in_tags = b_tags b,
                in_category_id = b_category_id b\<rparr>)"

definition postSchema_partial :: "host \<Rightarrow> post_body \<Rightarrow> string list + post_patch" where
  "postSchema_partial h b =
     (if post_issues h True b \<noteq> [] then Inl (post_issues h True b)
      else Inr \<lparr>pt_title = b_title b, pt_content = b_content b, pt_excerpt = b_excerpt b,
                pt_author = b_author b,
                pt_status = (case b_status b of Some t \<Rightarrow> parse_status t | None \<Rightarrow> None),
                pt_featured_image = b_featured_image b, pt_tags = b_tags b,
                pt_category_id = b_category_id b\<rparr>)"

subsection \<open>\<open>POST /api/admin/posts\<close>\<close>

text \<open>
  The handler proper, on the validated body; \<open>now\<close> is the reading of the clock,
  \<open>new Date().toISOString()\<close>.
\<close>

definition new_post_row :: "host \<Rightarrow> jsstring \<Rightarrow> post_input \<Rightarrow> post_row" where
  "new_post_row h now data =
     \<lparr>p_id = 0,
      p_title = SText (in_title data),
      p_slug = SText (generateSlug (toLowerCase h) (in_title data)),
      p_content = SText (in_content data),
      p_excerpt = SText (or_default (in_excerpt data) (take 200 (in_content data) @ js ''...'')),
      p_author = SText (in_author data),
      p_status = SText (status_text (in_status data)),
      p_featured_image = (if truthy (in_featured_image data)
                          then SText (or_default (in_featured_image data) []) else SNull),
      p_tags = SText (or_default (in_tags data) []),
      p_category_id = (case in_category_id data of
                         Some n \<Rightarrow> if n = 0 then SNull else SInt n | None \<Rightarrow> SNull),
      p_created_at = SText now,
      p_updated_at = SText now,
      p_published_at = (if in_status data = Published then SText now else SNull)\<rparr>"

definition create_post :: "host \<Rightarrow> jsstring \<Rightarrow> db \<Rightarrow> post_input \<Rightarrow> response \<times> db" where
  "create_post h now d data =
     (case insert_post d (new_post_row h now data) of
        Inl e \<Rightarrow>
          if mentions_unique e
          then ((409, ErrorBody ''A post with this title already exists''), d)
          else ((500, ErrorBody ''Failed to create post''), d)
      | Inr (d', result) \<Rightarrow>
          (case select_post_by_id d'
                  (case get_prop (get_prop result ''meta'') ''last_row_id'' of
                     JNum i \<Rightarrow> SInt i | _ \<Rightarrow> SNull) of
             None \<Rightarrow> ((500, ErrorBody ''Failed to create post''), d')
           | Some post \<Rightarrow>
               (case formatPost h post None of
                  None \<Rightarrow> ((500, ErrorBody ''Failed to create post''), d')
                | Some j \<Rightarrow> ((201, PostBody j), d'))))"

text \<open>The row the handler stores: the new row with the id the insert gives it.\<close>

definition stored_row :: "host \<Rightarrow> jsstring \<Rightarrow> db \<Rightarrow> post_input \<Rightarrow> post_row" where
  "stored_row h now d data = (new_post_row h now data)\<lparr>p_id := last_post_id d + 1\<rparr>"

subsection \<open>\<open>PUT /api/admin/posts/:id\<close>\<close>

text \<open>\<open>Object.entries(data)\<close>: the supplied properties, in the order of the schema.\<close>

definition entry :: "string \<Rightarrow> 'a option \<Rightarrow> ('a \<Rightarrow> sqlval) \<Rightarrow> (string \<times> sqlval) list" where
  "entry key v f = (case v of Some x \<Rightarrow> [(key, f x)] | None \<Rightarrow> [])"

definition patch_entries :: "post_patch \<Rightarrow> (string \<times> sqlval) list" where
  "patch_entries data =
     entry ''title'' (pt_title data) SText
     @ entry ''content'' (pt_content data) SText
     @ entry ''excerpt'' (pt_excerpt data) SText
     @ entry ''author'' (pt_author data) SText
     @ entry ''status'' (pt_status data) (\<lambda>st. SText (status_text st))
     @ entry ''featured_image'' (pt_featured_image data) SText
     @ entry ''tags'' (pt_tags data) SText
     @ entry ''category_id'' (pt_category_id data) SInt"

text \<open>
  The body of the \<open>forEach\<close>: what one entry appends to \<open>updates\<close> and \<open>values\<close>, kept
  here as pairs of a column and its value.
\<close>

definition entry_updates :: "host \<Rightarrow> string \<times> sqlval \<Rightarrow> (string \<times> sqlval) list" where
  "entry_updates h e =
     (case e of (key, v) \<Rightarrow>
        if key = ''title''
        then [(''title'', v),
              (''slug'', SText (generateSlug (toLowerCase h) (case v of SText t \<Rightarrow> t | _ \<Rightarrow> [])))]
        else if key \<noteq> ''id'' then [(key, v)]
        else [])"

definition post_updates :: "host \<Rightarrow> jsstring \<Rightarrow> post_patch \<Rightarrow> (string \<times> sqlval) list" where
  "post_updates h now data =
     concat (map (entry_updates h) (patch_entries data))
     @ [(''updated_at'', SText now)]
     @ (if pt_status data = Some Published then [(''published_at'', SText now)] else [])"

definition update_post ::
  "host \<Rightarrow> jsstring \<Rightarrow> db \<Rightarrow> jsstring \<Rightarrow> post_patch \<Rightarrow> response \<times> db" where
  "update_post h now d idParam data =
     (let id = parseInt idParam
      in case update_post_stmt d (post_updates h now data) (bind_num id) of
           Inl e \<Rightarrow> ((500, ErrorBody ''Failed to update post''), d)
         | Inr (d', result) \<Rightarrow>
             (case select_post_by_id d' (bind_num id) of
                None \<Rightarrow> ((404, ErrorBody ''Post not found''), d')
              | Some post \<Rightarrow>
                  (case formatPost h post None of
                     None \<Rightarrow> ((500, ErrorBody ''Failed to update post''), d')
                   | Some j \<Rightarrow> ((200, PostBody j), d'))))"

text \<open>
  The entries after \<open>title\<close>, the columns they name, and the assignments that follow the
  title's: the shape of \<open>post_updates\<close> proved below.
\<close>

definition patch_rest :: "post_patch \<Rightarrow> (string \<times> sqlval) list" where
  "patch_rest data =
     entry ''content'' (pt_content data) SText
     @ entry ''excerpt'' (pt_excerpt data) SText
     @ entry ''author'' (pt_author data) SText
     @ entry ''status'' (pt_status data) (\<lambda>st. SText (status_text st))
     @ entry ''featured_image'' (pt_featured_image data) SText
     @ entry ''tags'' (pt_tags data) SText
     @ entry ''category_id'' (pt_category_id data) SInt"

definition plain_column :: "string \<Rightarrow> bool" where
  "plain_column k =
     (k \<in> set [''content'', ''excerpt'', ''author'', ''status'', ''featured_image'', ''tags'',
                 ''category_id''])"

definition tail_updates :: "jsstring \<Rightarrow> post_patch \<Rightarrow> (string \<times> sqlval) list" where
  "tail_updates now data =
     patch_rest data @ [(''updated_at'', SText now)]
     @ (if pt_status data = Some Published then [(''published_at'', SText now)] else [])"

subsection \<open>\<open>DELETE /api/admin/posts/:id\<close>\<close>

definition delete_post :: "db \<Rightarrow> jsstring \<Rightarrow> response \<times> db" where
  "delete_post d idParam =
     (let id = parseInt idParam
      in case delete_post_stmt d (bind_num id) of
           (d', result) \<Rightarrow>
             if get_prop result ''changes'' = JNum 0
             then ((404, ErrorBody ''Post not found''), d')
             else ((200, MessageBody ''Post deleted successfully''), d'))"

section \<open>Routes\<close>

text \<open>
  The routes of the handlers above and the middleware in front of them: every path under
  \<open>/api/admin/\<close> passes the bearer check first. \<open>None\<close> is a route outside this
  development.
\<close>

datatype http_method = GET | POST | PUT | DELETE

record request =
  rq_method :: http_method
  rq_path :: "jsstring list"
  rq_query :: query
  rq_authorization :: "jsstring option"
  rq_json :: post_body

definition route :: "host \<Rightarrow> jsstring \<Rightarrow> db \<Rightarrow> request \<Rightarrow> (response \<times> db) option" where
  "route h now d rq =
     (let m = rq_method rq; path = rq_path rq; q = rq_query rq
      in if m = GET \<and> path = [js ''api'', js ''posts'']
         then Some (get_posts h d q, d)
         else if m = GET \<and> length path = 3 \<and> take 2 path = [js ''api'', js ''posts'']
         then Some (get_post h d (path ! 2) q, d)
         else if m = POST \<and> path = [js ''api'', js ''admin'', js ''posts'']
         then (case postSchema h (rq_json rq) of
                 Inl issues \<Rightarrow> Some ((400, InvalidBody issues), d)
               | Inr data \<Rightarrow> Some (create_post h now d data))
         else if m = PUT \<and> length path = 4 \<and> take 3 path = [js ''api'', js ''admin'', js ''posts'']
         then (case postSchema_partial h (rq_json rq) of
                 Inl issues \<Rightarrow> Some ((400, InvalidBody issues), d)
               | Inr data \<Rightarrow> Some (update_post h now d (path ! 3) data))
         else if m = DELETE \<and> length path = 4 \<and> take 3 path = [js ''api'', js ''admin'', js ''posts'']
         then Some (delete_post d (path ! 3))
         else if m = GET \<and> length path = 4 \<and> take 2 path = [js ''api'', js ''posts'']
                 \<and> path ! 3 = js ''comments''
         then Some (get_post_comments d (path ! 2) q, d)
         else if m = GET \<and> path = [js ''api'', js ''admin'', js ''comments'']
         then Some (get_admin_comments d q, d)
         else None)"

definition app :: "host \<Rightarrow> jsstring \<Rightarrow> db \<Rightarrow> request \<Rightarrow> (response \<times> db) option" where
  "app h now d rq =
     (if take 2 (rq_path rq) = [js ''api'', js ''admin'']
      then (case bearerAuth h (rq_authorization rq) of
              Some code \<Rightarrow> Some ((code, Refused), d)
            | None \<Rightarrow> route h now d rq)
      else route h now d rq)"

text \<open>
  A host for the concrete runs below: ASCII lower-casing; the conversion of a timestamp
  that is a text in ISO form, which is that text (the runs convert no other value);
  every URL accepted; one valid token.
\<close>

definition test_host :: host where
  "test_host =
     \<lparr>toLowerCase = ascii_toLowerCase,
      date_toISOString = (\<lambda>v. case v of SText t \<Rightarrow> Some t | _ \<Rightarrow> None),
      is_url = (\<lambda>u. True),
      bearerAuth = (\<lambda>a. if a = Some (js ''Bearer secret'') then None else Some 401)\<rparr>"

section \<open>Sample data\<close>

definition t_early :: jsstring where
  "t_early = js ''2024-01-01T00:00:00.000Z''"

definition t_late :: jsstring where
  "t_late = js ''2024-02-01T00:00:00.000Z''"

definition tech :: category_row where
  "tech = \<lparr>c_id = 1, c_name = SText (js ''Technology''), c_slug = SText (js ''technology''),
           c_description = SNull, c_created_at = SText t_early\<rparr>"

definition post1 :: post_row where
  "post1 = \<lparr>p_id = 1, p_title = SText (js ''Hi''), p_slug = SText (js ''hi''),
            p_content = SText (js ''abc''), p_excerpt = SText (js ''abc...''),
            p_author = SText (js ''Jo''), p_status = SText (js ''published''),
            p_featured_image = SNull, p_tags = SText [], p_category_id = SInt 1,
            p_created_at = SText t_early, p_updated_at = SText t_early,
            p_published_at = SText t_early\<rparr>"

definition comment1 :: comment_row where
  "comment1 = \<lparr>m_id = 1, m_post_id = SInt 1, m_author_name = SText (js ''Al''),
               m_author_email = SText (js ''al@example.com''), m_content = SText (js ''ok''),
               m_status = SText (js ''approved''), m_created_at = SText t_early\<rparr>"

definition comment2 :: comment_row where
  "comment2 = \<lparr>m_id = 2, m_post_id = SInt 1, m_author_name = SText (js ''Bo''),
               m_author_email = SText (js ''bo@example.com''), m_content = SText (js ''no''),
               m_status = SText (js ''pending''), m_created_at = SText t_early\<rparr>"

definition comment3 :: comment_row where
  "comment3 = \<lparr>m_id = 3, m_post_id = SInt 1, m_author_name = SText (js ''Cy''),
               m_author_email = SText (js ''cy@example.com''), m_content = SText (js ''hm''),
               m_status = SText (js ''pending''), m_created_at = SText t_late\<rparr>"

definition empty_db :: db where
  "empty_db = \<lparr>posts = [], categories = [], comments = [], posts_seq = 0\<rparr>"

definition blog_db :: db where
  "blog_db = \<lparr>posts = [post1], categories = [tech],
              comments = [comment1, comment2, comment3], posts_seq = 1\<rparr>"

definition hi_body :: post_body where
  "hi_body = \<lparr>b_title = Some (js ''Hi''), b_content = Some (js ''abc''), b_excerpt = None,
     b_author = Some (js ''Jo''), b_status = Some (js ''published''), b_featured_image = None,
     b_tags = None, b_category_id = None\<rparr>"

definition hi_input :: post_input where
  "hi_input = \<lparr>in_title = js ''Hi'', in_content = js ''abc'', in_excerpt = None,
     in_author = js ''Jo'', in_status = Published, in_featured_image = None, in_tags = None,
     in_category_id = None\<rparr>"

definition hi_row :: post_row where
  "hi_row = post1\<lparr>p_category_id := SNull\<rparr>"

definition hi_json :: post_json where
  "hi_json = \<lparr>j_columns = hi_row, j_category = None, j_tags = SText [],
     j_created_at = t_early, j_updated_at = t_early, j_published_at = Some t_early\<rparr>"

text \<open>A body whose title is one space, and what becomes of it.\<close>

definition blank_body :: post_body where
  "blank_body = \<lparr>b_title = Some (js '' ''), b_content = Some (js ''abc''), b_excerpt = None,
     b_author = Some (js ''Jo''), b_status = None, b_featured_image = None, b_tags = None,
     b_category_id = None\<rparr>"

definition blank_input :: post_input where
  "blank_input = \<lparr>in_title = js '' '', in_content = js ''abc'', in_excerpt = None,
     in_author = js ''Jo'', in_status = Draft, in_featured_image = None, in_tags = None,
     in_category_id = None\<rparr>"




text \<open>A patch that only renames the post, and what becomes of \<open>blog_db\<close>.\<close>

definition retitle :: post_patch where
  "retitle = \<lparr>pt_title = Some (js ''New Day''), pt_content = None, pt_excerpt = None,
     pt_author = None, pt_status = None, pt_featured_image = None, pt_tags = None,
     pt_category_id = None\<rparr>"

definition retitled_row :: post_row where
  "retitled_row = post1\<lparr>p_title := SText (js ''New Day''), p_slug := SText (js ''new-day''),
     p_updated_at := SText t_late\<rparr>"

definition retitled_json :: post_json where
  "retitled_json = \<lparr>j_columns = retitled_row, j_category = None, j_tags = SText [],
     j_created_at = t_early, j_updated_at = t_late, j_published_at = Some t_early\<rparr>"

definition comments_request :: "jsstring \<Rightarrow> request" where
  "comments_request status =
     \<lparr>rq_method = GET, rq_path = [js ''api'', js ''posts'', js ''1'', js ''comments''],
      rq_query = [(js ''status'', status)], rq_authorization = None, rq_json = blank_body\<rparr>"

section \<open>Integers that are doubles\<close>

lemma excess_bits_small: "a < 2 ^ 53 \<Longrightarrow> excess_bits a = 0"
  by (subst excess_bits.simps) simp

lemma to_double_exact: "\<bar>n\<bar> < 2 ^ 53 \<Longrightarrow> to_double n = Some n"
proof -
  assume b: "\<bar>n\<bar> < 2 ^ 53"
  have "(2::int) ^ 53 < 2 ^ 1024" by (rule power_strict_increasing) simp_all
  with b have big: "\<not> \<bar>n\<bar> \<ge> 2 ^ 1024" by linarith
  have "to_double n
      = (if \<bar>n\<bar> \<ge> 2 ^ 1024 then None else Some (if n < 0 then - \<bar>n\<bar> else \<bar>n\<bar>))"
    unfolding to_double_def Let_def excess_bits_small[OF b] by simp
  also have "\<dots> = Some n" using big by (simp only: if_False) simp
  finally show ?thesis .
qed

section \<open>The slug generator\<close>

lemma hyphen_not_alnum: "\<not> is_lower_alnum hyphen"
  by (simp add: is_lower_alnum_def hyphen_def)

lemma replace_chars: "list_all slug_char (replace_non_alnum_runs s)"
  by (induction s rule: replace_non_alnum_runs.induct) (auto simp: slug_char_def)

lemma replace_hd_alnum:
  "xs = [] \<or> is_lower_alnum (hd xs) \<Longrightarrow>
   replace_non_alnum_runs xs = [] \<or> hd (replace_non_alnum_runs xs) \<noteq> hyphen"
  using hyphen_not_alnum by (cases xs) auto

lemma dropWhile_hd_alnum:
  "dropWhile (\<lambda>d. \<not> is_lower_alnum d) cs = []
   \<or> is_lower_alnum (hd (dropWhile (\<lambda>d. \<not> is_lower_alnum d) cs))"
  using hd_dropWhile[of "\<lambda>d. \<not> is_lower_alnum d" cs] by blast

lemma no_double_hyphen_Cons:
  "no_double_hyphen (a # s) =
     ((a = hyphen \<longrightarrow> s = [] \<or> hd s \<noteq> hyphen) \<and> no_double_hyphen s)"
  by (cases s) auto

text \<open>What \<open>no_double_hyphen\<close> says, by positions.\<close>

lemma no_double_hyphen_iff:
  "no_double_hyphen s = (\<forall>i. Suc i < length s \<longrightarrow> \<not> (s ! i = hyphen \<and> s ! Suc i = hyphen))"
proof (induction s rule: no_double_hyphen.induct)
  case (1 a b cs)
  have "(\<forall>i. Suc i < length (a # b # cs) \<longrightarrow>
            \<not> ((a # b # cs) ! i = hyphen \<and> (a # b # cs) ! Suc i = hyphen))
        = (\<not> (a = hyphen \<and> b = hyphen) \<and>
           (\<forall>i. Suc i < length (b # cs) \<longrightarrow>
              \<not> ((b # cs) ! i = hyphen \<and> (b # cs) ! Suc i = hyphen)))"
    (is "?L = ?R")
  proof
    assume l: ?L
    have "\<not> (a = hyphen \<and> b = hyphen)" using l[rule_format, of 0] by simp
    moreover have "\<And>i. Suc i < length (b # cs) \<Longrightarrow>
        \<not> ((b # cs) ! i = hyphen \<and> (b # cs) ! Suc i = hyphen)"
      using l[rule_format, of "Suc _"] by simp
    ultimately show ?R by blast
  next
    assume r: ?R
    show ?L
    proof (intro allI impI)
      fix i assume "Suc i < length (a # b # cs)"
      then show "\<not> ((a # b # cs) ! i = hyphen \<and> (a # b # cs) ! Suc i = hyphen)"
        using r by (cases i) auto
    qed
  qed
  with 1 show ?case by simp
qed simp_all

lemma replace_no_double: "no_double_hyphen (replace_non_alnum_runs s)"
proof (induction s rule: replace_non_alnum_runs.induct)
  case 1 show ?case by simp
next
  case (2 c cs)
  show ?case
  proof (cases "is_lower_alnum c")
    case True
    with 2 hyphen_not_alnum show ?thesis by (auto simp: no_double_hyphen_Cons)
  next
    case False
    with 2 replace_hd_alnum[OF dropWhile_hd_alnum[of cs]] show ?thesis
      by (simp add: no_double_hyphen_Cons)
  qed
qed

lemma no_double_butlast: "no_double_hyphen s \<Longrightarrow> no_double_hyphen (butlast s)"
  by (induction s rule: no_double_hyphen.induct) (auto simp: no_double_hyphen_Cons)

lemma no_double_last:
  "no_double_hyphen s \<Longrightarrow> s \<noteq> [] \<Longrightarrow> last s = hyphen \<Longrightarrow>
   butlast s = [] \<or> last (butlast s) \<noteq> hyphen"
  by (induction s rule: no_double_hyphen.induct) (auto split: if_splits)

lemma strip_leading_props:
  assumes "list_all slug_char s" "no_double_hyphen s"
  shows "list_all slug_char (strip_leading_hyphen s)"
    and "no_double_hyphen (strip_leading_hyphen s)"
    and "strip_leading_hyphen s = [] \<or> hd (strip_leading_hyphen s) \<noteq> hyphen"
  using assms by (cases s; auto simp: strip_leading_hyphen_def no_double_hyphen_Cons)+

lemma list_all_butlast: "list_all P s \<Longrightarrow> list_all P (butlast s)"
  by (induction s) auto

lemma hd_butlast: "butlast s \<noteq> [] \<Longrightarrow> hd (butlast s) = hd s"
  by (cases s) (auto split: if_splits)

lemma strip_trailing_props:
  assumes "list_all slug_char s" "no_double_hyphen s" "s = [] \<or> hd s \<noteq> hyphen"
  shows "slug_shaped (strip_trailing_hyphen s)"
proof (cases "s \<noteq> [] \<and> last s = hyphen")
  case True
  then have eq: "strip_trailing_hyphen s = butlast s"
    by (simp add: strip_trailing_hyphen_def)
  have "butlast s = [] \<or> last (butlast s) \<noteq> hyphen"
    using no_double_last assms(2) True by blast
  moreover have "butlast s = [] \<or> hd (butlast s) \<noteq> hyphen"
    using assms(3) True hd_butlast by metis
  ultimately show ?thesis
    unfolding eq slug_shaped_def no_edge_hyphen_def
    using assms list_all_butlast no_double_butlast by blast
next
  case False
  then have eq: "strip_trailing_hyphen s = s"
    by (auto simp add: strip_trailing_hyphen_def)
  show ?thesis
    unfolding eq slug_shaped_def no_edge_hyphen_def using assms False by auto
qed

lemma generateSlug_slug_shaped: "slug_shaped (generateSlug lc title)"
  unfolding generateSlug_def strip_edge_hyphens_def
  by (rule strip_trailing_props) (rule strip_leading_props[OF replace_chars replace_no_double])+

lemma replace_fixed:
  "list_all slug_char s \<Longrightarrow> no_double_hyphen s \<Longrightarrow> s = [] \<or> last s \<noteq> hyphen \<Longrightarrow>
   replace_non_alnum_runs s = s"
proof (induction s rule: replace_non_alnum_runs.induct)
  case 1 show ?case by simp
next
  case (2 c cs)
  show ?case
  proof (cases "is_lower_alnum c")
    case True
    with 2 show ?thesis by (auto simp: no_double_hyphen_Cons split: if_splits)
  next
    case False
    with 2(3) have c: "c = hyphen" by (simp add: slug_char_def)
    with 2(4,5) have "cs \<noteq> []" "hd cs \<noteq> hyphen" by (auto simp: no_double_hyphen_Cons)
    moreover from 2(3) have "list_all slug_char cs" by simp
    ultimately have "is_lower_alnum (hd cs)" by (cases cs) (auto simp: slug_char_def)
    with \<open>cs \<noteq> []\<close> have dw: "dropWhile (\<lambda>d. \<not> is_lower_alnum d) cs = cs"
      by (cases cs) auto
    from 2(2)[OF False] 2(3,4,5) \<open>cs \<noteq> []\<close> have "replace_non_alnum_runs cs = cs"
      by (simp add: dw no_double_hyphen_Cons)
    with False c dw show ?thesis by simp
  qed
qed

lemma strip_fixed: "no_edge_hyphen s \<Longrightarrow> strip_edge_hyphens s = s"
  by (cases s)
    (auto simp: no_edge_hyphen_def strip_edge_hyphens_def strip_leading_hyphen_def
       strip_trailing_hyphen_def)

lemma ascii_lower_char_fixed: "slug_char c \<Longrightarrow> ascii_lower_char c = c"
  by (auto simp: ascii_lower_char_def slug_char_def is_lower_alnum_def hyphen_def
      word_le_nat_alt)

lemma ascii_lower_fixes_slug: "list_all slug_char s \<Longrightarrow> ascii_toLowerCase s = s"
  by (induction s) (auto simp: ascii_toLowerCase_def ascii_lower_char_fixed)

lemmas slug_eval =
  generateSlug_def ascii_toLowerCase_def ascii_lower_char_def js_def is_lower_alnum_def
  hyphen_def strip_edge_hyphens_def strip_leading_hyphen_def strip_trailing_hyphen_def

lemma slug_hello: "generateSlug ascii_toLowerCase (js ''Hello, World!'') = js ''hello-world''"
  by (simp add: slug_eval)

text \<open>
  C3. For every input string and every lower-casing function, the slug contains only
  lowercase letters, digits and hyphens, has no two consecutive hyphens, and neither
  starts nor ends with a hyphen.
\<close>

theorem generateSlug_shape:
  "list_all slug_char (generateSlug lc title)
   \<and> no_double_hyphen (generateSlug lc title)
   \<and> no_edge_hyphen (generateSlug lc title)"
  using generateSlug_slug_shaped[of lc title] by (simp add: slug_shaped_def)

theorem generateSlug_shape_witness:
  "generateSlug ascii_toLowerCase (js ''Hello, World!'') = js ''hello-world''
   \<and> list_all slug_char (js ''hello-world'')
   \<and> no_double_hyphen (js ''hello-world'')
   \<and> no_edge_hyphen (js ''hello-world'')"
  using generateSlug_shape[of ascii_toLowerCase "js ''Hello, World!''"]
  by (simp add: slug_hello)

text \<open>
  C4. The slug generator is idempotent: applied to its own output it returns that output,
  for every input string, given that lower-casing leaves a string of lowercase letters,
  digits and hyphens as it is.
\<close>

theorem generateSlug_idempotent:
  assumes "\<And>s. list_all slug_char s \<Longrightarrow> lc s = s"
  shows "generateSlug lc (generateSlug lc x) = generateSlug lc x"
proof -
  let ?s = "generateSlug lc x"
  have sh: "slug_shaped ?s" by (rule generateSlug_slug_shaped)
  then have "lc ?s = ?s" using assms by (simp add: slug_shaped_def)
  moreover have "replace_non_alnum_runs ?s = ?s"
    using sh by (intro replace_fixed) (auto simp: slug_shaped_def no_edge_hyphen_def)
  moreover have "strip_edge_hyphens ?s = ?s"
    using sh by (intro strip_fixed) (simp add: slug_shaped_def)
  ultimately show ?thesis by (simp add: generateSlug_def[of lc ?s])
qed

theorem generateSlug_idempotent_witness:
  "generateSlug ascii_toLowerCase (js ''Hello, World!'') = js ''hello-world''
   \<and> generateSlug ascii_toLowerCase (js ''hello-world'') = js ''hello-world''"
  using generateSlug_idempotent[of ascii_toLowerCase "js ''Hello, World!''",
      OF ascii_lower_fixes_slug]
  by (simp add: slug_hello)

section \<open>The count query and the list query\<close>

lemma filter_key_distinct:
  "distinct (map f xs) \<Longrightarrow>
   filter (\<lambda>x. f x = k) xs = (case find (\<lambda>x. f x = k) xs of None \<Rightarrow> [] | Some x \<Rightarrow> [x])"
proof (induction xs)
  case Nil show ?case by simp
next
  case (Cons x xs)
  show ?case
  proof (cases "f x = k")
    case True
    with Cons.prems have "\<forall>y\<in>set xs. f y \<noteq> k"
      by (metis distinct.simps(2) image_eqI list.simps(9) set_map)
    then have "filter (\<lambda>x. f x = k) xs = []" by (simp add: filter_empty_conv)
    with True show ?thesis by simp
  next
    case False
    with Cons show ?thesis by simp
  qed
qed

lemma ex_key_distinct:
  "distinct (map f xs) \<Longrightarrow>
   list_ex (\<lambda>x. f x = k \<and> Q x) xs
     = (case find (\<lambda>x. f x = k) xs of None \<Rightarrow> False | Some x \<Rightarrow> Q x)"
proof (induction xs)
  case Nil show ?case by simp
next
  case (Cons x xs)
  show ?case
  proof (cases "f x = k")
    case True
    with Cons.prems have "\<forall>y\<in>set xs. f y \<noteq> k"
      by (metis distinct.simps(2) image_eqI list.simps(9) set_map)
    then have "\<not> list_ex (\<lambda>x. f x = k \<and> Q x) xs" by (simp add: list_ex_iff)
    with True show ?thesis by simp
  next
    case False
    with Cons show ?thesis by simp
  qed
qed

lemma sql_eq_SInt: "sql_eq v (SInt i) = (SInt i = v)" "sql_eq (SInt i) v = (SInt i = v)"
  by (auto simp: sql_eq_def)

lemma posts_left_join_distinct:
  assumes "distinct (map c_id (categories d))"
  shows "posts_left_join d = map (\<lambda>p. (p, category_of d p)) (posts d)"
proof -
  have inj: "distinct (map (\<lambda>c. SInt (c_id c)) (categories d))"
    using assms by (simp add: distinct_map inj_on_def comp_def)
  have "\<And>p. (let ms = filter (\<lambda>c. sql_eq (p_category_id p) (SInt (c_id c))) (categories d)
        in if ms = [] then [(p, None)] else map (\<lambda>c. (p, Some c)) ms) = [(p, category_of d p)]"
    unfolding sql_eq_SInt category_of_def Let_def filter_key_distinct[OF inj]
    by (simp split: option.splits)
  then show ?thesis by (simp add: posts_left_join_def)
qed

lemma where_agree:
  assumes "distinct (map c_id (categories d))"
  shows "list_where st cat se (p, category_of d p) = count_where d st cat se p"
proof -
  have inj: "distinct (map (\<lambda>c. SInt (c_id c)) (categories d))"
    using assms by (simp add: distinct_map inj_on_def comp_def)
  have "\<And>t. list_ex (\<lambda>c. sql_eq (SInt (c_id c)) (p_category_id p) \<and> sql_eq (c_slug c) (SText t))
              (categories d)
      = sql_eq (case category_of d p of Some c' \<Rightarrow> c_slug c' | None \<Rightarrow> SNull) (SText t)"
    unfolding sql_eq_SInt category_of_def ex_key_distinct[OF inj]
    by (simp split: option.splits add: sql_eq_def)
  then show ?thesis by (simp add: list_where_def count_where_def split: option.splits)
qed

lemma list_matching_distinct:
  assumes "distinct (map c_id (categories d))"
  shows "list_matching d st cat se =
         map (\<lambda>p. (p, category_of d p)) (filter (count_where d st cat se) (posts d))"
  unfolding list_matching_def posts_left_join_distinct[OF assms] filter_map
  by (simp add: comp_def where_agree[OF assms])

text \<open>
  C2. With category ids unique (the primary key of \<open>categories\<close>), for every combination
  of the status, category and search filters the rows of the list query without
  \<open>ORDER BY\<close>, \<open>LIMIT\<close> and \<open>OFFSET\<close> are, post by post, the posts the count query counts,
  and the total is their number.
\<close>

theorem count_query_matches_list_query:
  assumes "distinct (map c_id (categories d))"
  shows "map fst (list_matching d st cat se) = filter (count_where d st cat se) (posts d)
       \<and> count_query d st cat se = int (length (list_matching d st cat se))"
  by (simp add: list_matching_distinct[OF assms] count_query_def comp_def)

lemmas sample_defs =
  blog_db_def empty_db_def post1_def tech_def comment1_def comment2_def comment3_def
  t_early_def t_late_def

lemma distinct_blog: "distinct (map c_id (categories blog_db))"
  by (simp add: sample_defs)

lemma count_blog:
  "count_query blog_db (js ''published'') (Some (js ''technology'')) None = 1"
  by (simp add: count_query_def count_where_def search_clause_def sql_eq_def sample_defs js_def)

lemma filter_blog:
  "filter (count_where blog_db (js ''published'') (Some (js ''technology'')) None)
     (posts blog_db) = [post1]"
  by (simp add: count_where_def search_clause_def sql_eq_def sample_defs js_def)

theorem count_query_matches_list_query_witness:
  "distinct (map c_id (categories blog_db))
   \<and> map fst (list_matching blog_db (js ''published'') (Some (js ''technology'')) None)
       = [post1]
   \<and> count_query blog_db (js ''published'') (Some (js ''technology'')) None = 1"
  using count_query_matches_list_query[OF distinct_blog,
      of "js ''published''" "Some (js ''technology'')" None]
  by (simp add: distinct_blog filter_blog count_blog)

section \<open>Pagination of the post listing\<close>

lemmas parse_eval =
  parseInt_def is_js_whitespace_def is_digit_in_def digit_value_def digits_value_def
  or_default_def query_param_def js_def Let_def to_double_exact









section \<open>Creating a post\<close>

lemma last_post_id_ge: "r \<in> set (posts d) \<Longrightarrow> p_id r \<le> last_post_id d"
proof -
  have "\<And>xs (s::int). x \<in> set xs \<Longrightarrow> x \<le> foldr max xs s" for x
  proof -
    fix xs :: "int list" and s :: int
    show "x \<in> set xs \<Longrightarrow> x \<le> foldr max xs s"
      by (induction xs) auto
  qed
  then show "r \<in> set (posts d) \<Longrightarrow> p_id r \<le> last_post_id d"
    unfolding last_post_id_def by (metis image_eqI set_map)
qed

lemma find_append_last:
  "\<forall>y\<in>set xs. \<not> P y \<Longrightarrow> P x \<Longrightarrow> find P (xs @ [x]) = Some x"
  by (induction xs) auto

lemma select_new_post:
  assumes "p_id r = last_post_id d + 1"
  shows "select_post_by_id (d\<lparr>posts := posts d @ [r], posts_seq := k\<rparr>) (SInt (p_id r)) = Some r"
proof -
  have "\<forall>y\<in>set (posts d). \<not> sql_eq (SInt (p_id y)) (SInt (p_id r))"
    using last_post_id_ge[of _ d] assms by (fastforce simp: sql_eq_def)
  then show ?thesis
    by (simp add: select_post_by_id_def find_append_last sql_eq_def)
qed

text \<open>The handler, step by step: the constraints, then the formatting of the stored row.\<close>

lemma create_post_unfold:
  "create_post h now d data =
     (case check_post d (posts d) (stored_row h now d data) of
        Some e \<Rightarrow> if e = UniqueConstraintFailed
                  then ((409, ErrorBody ''A post with this title already exists''), d)
                  else ((500, ErrorBody ''Failed to create post''), d)
      | None \<Rightarrow>
          (case formatPost h (stored_row h now d data) None of
             None \<Rightarrow> ((500, ErrorBody ''Failed to create post''),
                       d\<lparr>posts := posts d @ [stored_row h now d data],
                         posts_seq := last_post_id d + 1\<rparr>)
           | Some j \<Rightarrow> ((201, PostBody j),
                       d\<lparr>posts := posts d @ [stored_row h now d data],
                         posts_seq := last_post_id d + 1\<rparr>)))"
proof -
  have id: "p_id (stored_row h now d data) = last_post_id d + 1"
    by (simp add: stored_row_def)
  show ?thesis
    using select_new_post[OF id, of "last_post_id d + 1"]
    by (simp add: create_post_def insert_post_def Let_def stored_row_def[symmetric] id
        mentions_unique_def get_prop_def run_result_def split: option.splits)
qed

lemma formatPost_columns:
  "formatPost h r c = Some j \<Longrightarrow>
   j_columns j = r \<and> j_published_at j =
     (if sql_truthy (p_published_at r) then date_toISOString h (p_published_at r) else None)
   \<and> (sql_truthy (p_published_at r) \<longrightarrow> date_toISOString h (p_published_at r) \<noteq> None)"
  by (auto simp: formatPost_def split: option.splits if_splits)

lemma postSchema_status:
  "postSchema h b = Inr data \<Longrightarrow>
   in_status data = (if b_status b = Some (js ''published'') then Published else Draft)"
  by (auto simp: postSchema_def split: if_splits option.splits)

text \<open>
  C5. A post created from a body whose status is \<open>published\<close> is stored with
  \<open>published_at\<close> set to the creation timestamp and returned with a \<open>published_at\<close>; one
  created with status \<open>draft\<close>, or with no status, is stored with \<open>published_at\<close> null (and
  returned without one). The clock reading is a non-empty text.
\<close>

theorem create_post_published_at:
  assumes "postSchema h b = Inr data"
    and "create_post h now d data = ((201, PostBody j), d')"
    and "now \<noteq> []"
  shows "posts d' = posts d @ [j_columns j]
       \<and> (b_status b = Some (js ''published'') \<longrightarrow>
            p_published_at (j_columns j) = SText now \<and> j_published_at j \<noteq> None)
       \<and> (b_status b = Some (js ''draft'') \<or> b_status b = None \<longrightarrow>
            p_published_at (j_columns j) = SNull \<and> j_published_at j = None)"
proof -
  let ?r = "stored_row h now d data"
  from assms(2) have fmt: "formatPost h ?r None = Some j"
    and d': "d' = d\<lparr>posts := posts d @ [?r], posts_seq := last_post_id d + 1\<rparr>"
    by (auto simp: create_post_unfold split: option.splits if_splits)
  note fc = formatPost_columns[OF fmt]
  have pa: "p_published_at ?r = (if in_status data = Published then SText now else SNull)"
    by (simp add: stored_row_def new_post_row_def)
  have ne: "js ''draft'' \<noteq> js ''published''" by (simp add: js_def)
  show ?thesis
    using fc d' pa postSchema_status[OF assms(1)] assms(3) ne
    by (auto simp: sql_truthy_def)
qed

lemmas create_eval =
  test_host_def postSchema_def post_issues_def field_issue_def parse_status_def
  create_post_def insert_post_def new_post_row_def check_post_def post_not_null_ok_def
  slug_taken_def category_ref_ok_def last_post_id_def run_result_def get_prop_def
  select_post_by_id_def formatPost_def sql_truthy_def sql_eq_def status_text_def
  or_default_def truthy_def mentions_unique_def slug_eval Let_def

lemma hi_parsed: "postSchema test_host hi_body = Inr hi_input"
  by (simp add: create_eval hi_body_def hi_input_def)

lemma hi_created:
  "create_post test_host t_early empty_db hi_input
     = ((201, PostBody hi_json),
        \<lparr>posts = [hi_row], categories = [], comments = [], posts_seq = 1\<rparr>)"
  by (simp add: create_eval hi_input_def hi_json_def hi_row_def sample_defs)

lemma blank_parsed: "postSchema test_host blank_body = Inr blank_input"
  by (simp add: create_eval blank_body_def blank_input_def)


lemma t_early_not_empty: "t_early \<noteq> []"
  by (simp add: t_early_def js_def)

lemma hi_status: "b_status hi_body = Some (js ''published'')"
  by (simp add: hi_body_def)

theorem create_post_published_at_witness:
  "postSchema test_host hi_body = Inr hi_input
   \<and> create_post test_host t_early empty_db hi_input
       = ((201, PostBody hi_json),
          \<lparr>posts = [hi_row], categories = [], comments = [], posts_seq = 1\<rparr>)
   \<and> t_early \<noteq> []
   \<and> b_status hi_body = Some (js ''published'')
   \<and> p_published_at (j_columns hi_json) = SText t_early
   \<and> j_published_at hi_json \<noteq> None"
proof -
  from create_post_published_at[OF hi_parsed hi_created t_early_not_empty] hi_status
  have "p_published_at (j_columns hi_json) = SText t_early \<and> j_published_at hi_json \<noteq> None"
    by auto
  with hi_parsed hi_created t_early_not_empty hi_status show ?thesis by simp
qed

section \<open>Titles without letters or digits\<close>











section \<open>Updating a post\<close>

lemma set_column_created_at:
  "set_column col v r = Inr r' \<Longrightarrow> col \<noteq> ''created_at'' \<Longrightarrow> p_created_at r' = p_created_at r"
  by (auto simp: set_column_def split: if_splits sqlval.splits)

lemma set_column_id:
  "set_column col v r = Inr r' \<Longrightarrow> col \<noteq> ''id'' \<Longrightarrow> p_id r' = p_id r"
  by (auto simp: set_column_def split: if_splits sqlval.splits)

lemma set_column_not_slug:
  "set_column col v r = Inr r' \<Longrightarrow> col \<noteq> ''slug'' \<Longrightarrow> p_slug r' = p_slug r"
  by (auto simp: set_column_def split: if_splits sqlval.splits)

lemma set_column_slug: "set_column ''slug'' v r = Inr r' \<Longrightarrow> p_slug r' = v"
  by (auto simp: set_column_def)

lemma set_column_not_title:
  "set_column col v r = Inr r' \<Longrightarrow> col \<noteq> ''title'' \<Longrightarrow> p_title r' = p_title r"
  by (auto simp: set_column_def split: if_splits sqlval.splits)

lemma set_column_title: "set_column ''title'' v r = Inr r' \<Longrightarrow> p_title r' = v"
  by (auto simp: set_column_def)

lemma in_entry: "e \<in> set (entry key v f) \<Longrightarrow> fst e = key"
  by (auto simp: entry_def split: option.splits)

lemma patch_rest_keys: "e \<in> set (patch_rest data) \<Longrightarrow> plain_column (fst e)"
  unfolding patch_rest_def plain_column_def set_append Un_iff
  by (elim disjE; drule in_entry; simp)

lemma plain_column_neq:
  "plain_column k \<Longrightarrow>
     k \<noteq> ''title'' \<and> k \<noteq> ''id'' \<and> k \<noteq> ''slug'' \<and> k \<noteq> ''created_at''"
  unfolding plain_column_def by auto

lemma rest_updates:
  "(\<And>e. e \<in> set es \<Longrightarrow> plain_column (fst e)) \<Longrightarrow> concat (map (entry_updates h) es) = es"
proof (induction es)
  case Nil show ?case by simp
next
  case (Cons e es)
  obtain k v where e: "e = (k, v)" by (cases e)
  with Cons.prems[of e] have "k \<noteq> ''title''" "k \<noteq> ''id''" using plain_column_neq[of k] by auto
  with e have "entry_updates h e = [e]" by (simp add: entry_updates_def)
  with Cons show ?case by simp
qed

lemma post_updates_shape:
  "post_updates h now data =
     (case pt_title data of
        Some t \<Rightarrow> [(''title'', SText t), (''slug'', SText (generateSlug (toLowerCase h) t))]
      | None \<Rightarrow> [])
     @ patch_rest data
     @ [(''updated_at'', SText now)]
     @ (if pt_status data = Some Published then [(''published_at'', SText now)] else [])"
proof -
  have "patch_entries data = entry ''title'' (pt_title data) SText @ patch_rest data"
    by (simp add: patch_entries_def patch_rest_def)
  then show ?thesis
    using rest_updates[of "patch_rest data" h, OF patch_rest_keys]
    by (simp add: post_updates_def entry_def entry_updates_def split: option.splits)
qed

lemma tail_updates_keys:
  assumes "e \<in> set (tail_updates now data)"
  shows "fst e \<noteq> ''title'' \<and> fst e \<noteq> ''id'' \<and> fst e \<noteq> ''slug'' \<and> fst e \<noteq> ''created_at''"
proof -
  from assms consider "e \<in> set (patch_rest data)" | "fst e = ''updated_at''" | "fst e = ''published_at''"
    by (auto simp: tail_updates_def split: if_splits)
  then show ?thesis
  proof cases
    case 1 then show ?thesis using patch_rest_keys plain_column_neq by blast
  next
    case 2 then show ?thesis by simp
  next
    case 3 then show ?thesis by simp
  qed
qed

lemma post_updates_tail:
  "post_updates h now data =
     (case pt_title data of
        Some t \<Rightarrow> [(''title'', SText t), (''slug'', SText (generateSlug (toLowerCase h) t))]
      | None \<Rightarrow> [])
     @ tail_updates now data"
  by (simp add: post_updates_shape tail_updates_def)

lemma post_updates_keys:
  assumes "e \<in> set (post_updates h now data)"
  shows "fst e \<noteq> ''id'' \<and> fst e \<noteq> ''created_at''"
proof -
  from assms consider "e \<in> set (tail_updates now data)" | "fst e = ''title''" | "fst e = ''slug''"
    by (auto simp: post_updates_tail split: option.splits)
  then show ?thesis
  proof cases
    case 1 then show ?thesis using tail_updates_keys by blast
  next
    case 2 then show ?thesis by simp
  next
    case 3 then show ?thesis by simp
  qed
qed

lemma set_columns_keep:
  "set_columns as r = Inr r' \<Longrightarrow>
   ((\<forall>e\<in>set as. fst e \<noteq> ''created_at'') \<longrightarrow> p_created_at r' = p_created_at r)
   \<and> ((\<forall>e\<in>set as. fst e \<noteq> ''id'') \<longrightarrow> p_id r' = p_id r)
   \<and> ((\<forall>e\<in>set as. fst e \<noteq> ''slug'') \<longrightarrow> p_slug r' = p_slug r)
   \<and> ((\<forall>e\<in>set as. fst e \<noteq> ''title'') \<longrightarrow> p_title r' = p_title r)"
proof (induction as arbitrary: r)
  case Nil then show ?case by simp
next
  case (Cons a as)
  obtain col v where a: "a = (col, v)" by (cases a)
  from Cons.prems a obtain r1 where r1: "set_column col v r = Inr r1" "set_columns as r1 = Inr r'"
    by (auto split: sum.splits)
  from Cons.IH[OF r1(2)] set_column_created_at[OF r1(1)] set_column_id[OF r1(1)]
    set_column_not_slug[OF r1(1)] set_column_not_title[OF r1(1)] a
  show ?case by simp
qed

lemma set_columns_title_slug:
  assumes "set_columns ((''title'', v) # (''slug'', w) # bs) r = Inr r'"
    and "\<forall>e\<in>set bs. fst e \<noteq> ''slug'' \<and> fst e \<noteq> ''title''"
  shows "p_title r' = v \<and> p_slug r' = w"
proof -
  from assms(1) obtain r1 r2 where
    s: "set_column ''title'' v r = Inr r1" "set_column ''slug'' w r1 = Inr r2"
      "set_columns bs r2 = Inr r'"
    by (auto split: sum.splits)
  have "p_title r2 = v"
    using set_column_title[OF s(1)] set_column_not_title[OF s(2)] by simp
  moreover have "p_slug r2 = w" using set_column_slug[OF s(2)] .
  ultimately show ?thesis using set_columns_keep[OF s(3)] assms(2) by simp
qed

lemma update_rows_rel:
  "update_rows d as idv seen rs = Inr (out, n) \<Longrightarrow>
   \<exists>rs'. out = seen @ rs' \<and>
     list_all2 (\<lambda>r r'. if sql_eq (SInt (p_id r)) idv then set_columns as r = Inr r' else r' = r) rs rs'"
proof (induction rs arbitrary: seen out n)
  case Nil then show ?case by simp
next
  case (Cons r rs)
  show ?case
  proof (cases "sql_eq (SInt (p_id r)) idv")
    case True
    with Cons.prems obtain r' n' where
      s: "set_columns as r = Inr r'" and u: "update_rows d as idv (seen @ [r']) rs = Inr (out, n')"
      by (auto split: sum.splits option.splits prod.splits)
    from Cons.IH[OF u] obtain rs' where "out = (seen @ [r']) @ rs'"
      "list_all2 (\<lambda>r r'. if sql_eq (SInt (p_id r)) idv then set_columns as r = Inr r' else r' = r) rs rs'"
      by blast
    with True s show ?thesis by (intro exI[of _ "r' # rs'"]) simp
  next
    case False
    with Cons.prems have u: "update_rows d as idv (seen @ [r]) rs = Inr (out, n)" by simp
    from Cons.IH[OF u] obtain rs' where "out = (seen @ [r]) @ rs'"
      "list_all2 (\<lambda>r r'. if sql_eq (SInt (p_id r)) idv then set_columns as r = Inr r' else r' = r) rs rs'"
      by blast
    with False show ?thesis by (intro exI[of _ "r # rs'"]) simp
  qed
qed

lemma update_stmt_rel:
  assumes "update_post_stmt d as idv = Inr (d', res)"
  shows "list_all2 (\<lambda>r r'. if sql_eq (SInt (p_id r)) idv then set_columns as r = Inr r' else r' = r)
       (posts d) (posts d')"
proof -
  from assms obtain out n where u: "update_rows d as idv [] (posts d) = Inr (out, n)"
    and d': "d' = d\<lparr>posts := out\<rparr>"
    by (auto simp: update_post_stmt_def split: sum.splits prod.splits)
  from update_rows_rel[OF u] d' show ?thesis by auto
qed

lemma update_post_db:
  assumes "update_post h now d idParam data = (resp, d')"
  shows "d' = d \<or> (\<exists>res. update_post_stmt d (post_updates h now data) (bind_num (parseInt idParam))
                       = Inr (d', res))"
  using assms
  by (auto simp: update_post_def Let_def split: sum.splits option.splits prod.splits)

lemma list_all2_map_eq: "list_all2 (\<lambda>x y. f y = f x) xs ys \<Longrightarrow> map f ys = map f xs"
  by (induction xs ys rule: list_all2_induct) auto

lemma update_keeps_created_at:
  assumes "update_post_stmt d (post_updates h now data) idv = Inr (d', res)"
  shows "map (\<lambda>r. (p_id r, p_created_at r)) (posts d') = map (\<lambda>r. (p_id r, p_created_at r)) (posts d)"
proof -
  have keys: "\<forall>e\<in>set (post_updates h now data). fst e \<noteq> ''created_at''"
    "\<forall>e\<in>set (post_updates h now data). fst e \<noteq> ''id''"
    using post_updates_keys by blast+
  have "list_all2 (\<lambda>r r'. (p_id r', p_created_at r') = (p_id r, p_created_at r)) (posts d) (posts d')"
    using update_stmt_rel[OF assms]
  proof (rule list_all2_mono)
    fix r r'
    assume "if sql_eq (SInt (p_id r)) idv then set_columns (post_updates h now data) r = Inr r' else r' = r"
    then show "(p_id r', p_created_at r') = (p_id r, p_created_at r)"
      using set_columns_keep[of "post_updates h now data" r r'] keys by (auto split: if_splits)
  qed
  then show ?thesis by (rule list_all2_map_eq)
qed

lemma find_in: "find P xs = Some x \<Longrightarrow> x \<in> set xs \<and> P x"
  by (induction xs) (auto split: if_splits)

lemma list_all2_right: "list_all2 R xs ys \<Longrightarrow> y \<in> set ys \<Longrightarrow> \<exists>x\<in>set xs. R x y"
  by (induction xs ys rule: list_all2_induct) auto

lemma updated_row_slug:
  assumes u: "update_post_stmt d (post_updates h now data) idv = Inr (d', res)"
    and s: "select_post_by_id d' idv = Some post"
    and t: "pt_title data = Some t"
  shows "p_title post = SText t \<and> p_slug post = SText (generateSlug (toLowerCase h) t)"
proof -
  let ?as = "post_updates h now data"
  from find_in[OF s[unfolded select_post_by_id_def]]
  have pin: "post \<in> set (posts d')" and pm: "sql_eq (SInt (p_id post)) idv" by auto
  from list_all2_right[OF update_stmt_rel[OF u] pin] obtain r where
    r: "if sql_eq (SInt (p_id r)) idv then set_columns ?as r = Inr post else post = r"
    by blast
  with pm have sc: "set_columns ?as r = Inr post" by (auto split: if_splits)
  have shape: "?as = (''title'', SText t) # (''slug'', SText (generateSlug (toLowerCase h) t))
                 # tail_updates now data"
    using t by (simp add: post_updates_tail)
  show ?thesis
    using set_columns_title_slug[OF sc[unfolded shape]] tail_updates_keys by blast
qed

text \<open>
  C6. For every post update: if the payload has a title, the assignments begin with
  \<open>title\<close> and \<open>slug = generateSlug(title)\<close>, and a post returned by the update has that
  title and that slug; \<open>created_at\<close> is never among the assigned columns, and whatever
  the update answers, every stored post keeps its id and its \<open>created_at\<close>.
\<close>

theorem update_post_slug_and_created_at:
  "(pt_title data = Some t \<longrightarrow>
      take 2 (post_updates h now data)
        = [(''title'', SText t), (''slug'', SText (generateSlug (toLowerCase h) t))])
   \<and> ''created_at'' \<notin> fst ` set (post_updates h now data)
   \<and> (update_post h now d idParam data = (resp, d') \<longrightarrow>
        map (\<lambda>r. (p_id r, p_created_at r)) (posts d')
          = map (\<lambda>r. (p_id r, p_created_at r)) (posts d))
   \<and> (pt_title data = Some t \<and> update_post h now d idParam data = ((200, PostBody j), d') \<longrightarrow>
        p_title (j_columns j) = SText t
        \<and> p_slug (j_columns j) = SText (generateSlug (toLowerCase h) t))"
proof -
  have assigned: "pt_title data = Some t \<longrightarrow>
      take 2 (post_updates h now data)
        = [(''title'', SText t), (''slug'', SText (generateSlug (toLowerCase h) t))]"
    by (simp add: post_updates_tail)
  have untouched: "''created_at'' \<notin> fst ` set (post_updates h now data)"
  proof
    assume "''created_at'' \<in> fst ` set (post_updates h now data)"
    then obtain e where "e \<in> set (post_updates h now data)" and "fst e = ''created_at''"
      by (auto simp: image_iff)
    with post_updates_keys[of e h now data] show False by simp
  qed
  have kept: "update_post h now d idParam data = (resp, d') \<longrightarrow>
        map (\<lambda>r. (p_id r, p_created_at r)) (posts d')
          = map (\<lambda>r. (p_id r, p_created_at r)) (posts d)"
  proof
    assume "update_post h now d idParam data = (resp, d')"
    from update_post_db[OF this] show "map (\<lambda>r. (p_id r, p_created_at r)) (posts d')
          = map (\<lambda>r. (p_id r, p_created_at r)) (posts d)"
      using update_keeps_created_at by blast
  qed
  have stored: "pt_title data = Some t
        \<and> update_post h now d idParam data = ((200, PostBody j), d') \<longrightarrow>
        p_title (j_columns j) = SText t
        \<and> p_slug (j_columns j) = SText (generateSlug (toLowerCase h) t)"
  proof
    assume a: "pt_title data = Some t
        \<and> update_post h now d idParam data = ((200, PostBody j), d')"
    then obtain res post where
      u: "update_post_stmt d (post_updates h now data) (bind_num (parseInt idParam))
            = Inr (d', res)"
      and s: "select_post_by_id d' (bind_num (parseInt idParam)) = Some post"
      and f: "formatPost h post None = Some j"
      by (auto simp: update_post_def Let_def split: sum.splits option.splits prod.splits)
    have "j_columns j = post"
      using f by (auto simp: formatPost_def split: option.splits if_splits)
    then show "p_title (j_columns j) = SText t
        \<and> p_slug (j_columns j) = SText (generateSlug (toLowerCase h) t)"
      using updated_row_slug[OF u s] a by simp
  qed
  from assigned untouched kept stored show ?thesis by (intro conjI)
qed

lemmas update_eval =
  update_post_def update_post_stmt_def post_updates_def patch_entries_def entry_def
  entry_updates_def set_column_def bind_num_def check_post_def post_not_null_ok_def
  slug_taken_def category_ref_ok_def last_post_id_def run_result_def select_post_by_id_def
  formatPost_def sql_truthy_def sql_eq_def test_host_def slug_eval parse_eval

lemma retitled:
  "update_post test_host t_late blog_db (js ''1'') retitle
     = ((200, PostBody retitled_json), blog_db\<lparr>posts := [retitled_row]\<rparr>)"
  by (simp add: update_eval retitle_def retitled_json_def retitled_row_def sample_defs)

lemma retitle_title: "pt_title retitle = Some (js ''New Day'')"
  by (simp add: retitle_def)

lemma new_day: "generateSlug (toLowerCase test_host) (js ''New Day'') = js ''new-day''"
  by (simp add: test_host_def slug_eval)

theorem update_post_slug_and_created_at_witness:
  "pt_title retitle = Some (js ''New Day'')
   \<and> update_post test_host t_late blog_db (js ''1'') retitle
       = ((200, PostBody retitled_json), blog_db\<lparr>posts := [retitled_row]\<rparr>)
   \<and> take 2 (post_updates test_host t_late retitle)
       = [(''title'', SText (js ''New Day'')), (''slug'', SText (js ''new-day''))]
   \<and> p_slug (j_columns retitled_json) = SText (js ''new-day'')
   \<and> map (\<lambda>r. (p_id r, p_created_at r)) (posts (blog_db\<lparr>posts := [retitled_row]\<rparr>))
       = map (\<lambda>r. (p_id r, p_created_at r)) (posts blog_db)"
proof -
  note th = update_post_slug_and_created_at[of retitle "js ''New Day''" test_host t_late
      blog_db "js ''1''" "(200, PostBody retitled_json)" "blog_db\<lparr>posts := [retitled_row]\<rparr>"
      retitled_json]
  from th retitle_title retitled new_day
  have "take 2 (post_updates test_host t_late retitle)
       = [(''title'', SText (js ''New Day'')), (''slug'', SText (js ''new-day''))]"
    and "p_slug (j_columns retitled_json) = SText (js ''new-day'')"
    and "map (\<lambda>r. (p_id r, p_created_at r)) (posts (blog_db\<lparr>posts := [retitled_row]\<rparr>))
       = map (\<lambda>r. (p_id r, p_created_at r)) (posts blog_db)"
    by auto
  with retitle_title retitled show ?thesis by (intro conjI)
qed

section \<open>Deleting a post\<close>

text \<open>
  The handler compares \<open>result.changes\<close> with \<open>0\<close>; the result of \<open>run()\<close> has no such
  property (the count is \<open>result.meta.changes\<close>), so the comparison is never true and the
  handler never answers 404.
\<close>

lemma delete_post_never_404:
  "fst (delete_post d idParam) = (200, MessageBody ''Post deleted successfully'')"
  by (simp add: delete_post_def delete_post_stmt_def Let_def run_result_def get_prop_def split: prod.splits)

text \<open>
  C7 says that deleting a post answers 404 exactly when no row was deleted. Deleting the
  id 999, which \<open>blog_db\<close> does not have, deletes nothing and answers 200.
\<close>

theorem delete_missing_post:
  "delete_post blog_db (js ''999'')
     = ((200, MessageBody ''Post deleted successfully''), blog_db)
   \<and> get_prop (snd (delete_post_stmt blog_db (SInt 999))) ''changes'' = JUndefined
   \<and> get_prop (get_prop (snd (delete_post_stmt blog_db (SInt 999))) ''meta'') ''changes'' = JNum 0"
  by (simp add: delete_post_def delete_post_stmt_def Let_def run_result_def get_prop_def
      bind_num_def sql_eq_def parse_eval sample_defs)

section \<open>Listing comments\<close>

lemma text_le_total: "text_le a b \<or> text_le b a"
  by (induction a b rule: text_le.induct) auto

lemma text_le_trans: "text_le a b \<Longrightarrow> text_le b c \<Longrightarrow> text_le a c"
proof (induction a b arbitrary: c rule: text_le.induct)
  case (1 uu) show ?case by simp
next
  case (2 a as) then show ?case by simp
next
  case (3 a as b bs)
  then obtain x xs where c: "c = x # xs" by (cases c) auto
  from 3(2,3) have "a < x \<or> (a = x \<and> text_le as bs \<and> text_le bs xs \<and> a = b)"
    unfolding c by (auto simp: less_trans)
  with 3(1) show ?case unfolding c by auto
qed

lemma sql_le_total: "sql_le a b \<or> sql_le b a"
  using text_le_total by (cases a; cases b) auto

lemma sql_le_trans: "sql_le a b \<Longrightarrow> sql_le b c \<Longrightarrow> sql_le a c"
  by (cases a; cases b; cases c) (simp_all, erule (1) text_le_trans)

lemma set_insert_by: "set (insert_by precedes x xs) = insert x (set xs)"
  by (induction xs) auto

lemma mset_insert_by: "mset (insert_by precedes x xs) = add_mset x (mset xs)"
  by (induction xs) auto

lemma mset_order_by: "mset (order_by precedes xs) = mset xs"
  by (induction xs) (auto simp: order_by_def mset_insert_by)

lemma sorted_insert_by:
  assumes tot: "\<And>a b. precedes a b \<or> precedes b a"
    and tr: "\<And>a b c. precedes a b \<Longrightarrow> precedes b c \<Longrightarrow> precedes a c"
  shows "sorted_wrt precedes xs \<Longrightarrow> sorted_wrt precedes (insert_by precedes x xs)"
proof (induction xs)
  case Nil show ?case by simp
next
  case (Cons y ys)
  show ?case
  proof (cases "precedes x y")
    case True
    with Cons.prems tr show ?thesis by auto
  next
    case False
    with tot have "precedes y x" by blast
    with Cons False show ?thesis by (auto simp: set_insert_by)
  qed
qed

lemma sorted_order_by:
  assumes "\<And>a b. precedes a b \<or> precedes b a"
    and "\<And>a b c. precedes a b \<Longrightarrow> precedes b c \<Longrightarrow> precedes a c"
  shows "sorted_wrt precedes (order_by precedes xs)"
  by (induction xs) (auto simp: order_by_def intro: sorted_insert_by[OF assms])

lemma sorted_asc_by: "sorted_wrt (asc_by k) (order_by (asc_by k) xs)"
  unfolding asc_by_def[abs_def]
  by (rule sorted_order_by) (use sql_le_total sql_le_trans in blast)+

lemma sorted_desc_by: "sorted_wrt (desc_by k) (order_by (desc_by k) xs)"
  unfolding desc_by_def[abs_def]
  by (rule sorted_order_by) (use sql_le_total sql_le_trans in blast)+

lemma sorted_limit_offset:
  "sorted_wrt precedes xs \<Longrightarrow> limit_offset l off xs = Some ys \<Longrightarrow> sorted_wrt precedes ys"
  by (auto simp: limit_offset_def Let_def sorted_wrt_take sorted_wrt_drop
      split: option.splits if_splits)

lemma admin_listing:
  "get_admin_comments blog_db []
     = (200, AdminCommentsBody [(comment3, post1), (comment2, post1)]
          \<lparr>pg_page = Some 1, pg_limit = Some 20, pg_total = Some 2, pg_pages = Some 1\<rparr>)"
  by (simp add: get_admin_comments_def admin_comments_query_def admin_comments_count_def
      comments_join_posts_def limit_offset_def in_int64_def order_by_def desc_by_def sql_eq_def
      js_mul_def
      js_sub_def js_ceil_div_def parse_eval sample_defs)

lemma pending_listing:
  "get_post_comments blog_db (js ''1'') [(js ''status'', js ''pending'')]
     = (200, CommentsBody [comment2, comment3])"
  by (simp add: get_post_comments_def comments_of_post_def bind_num_def order_by_def
      asc_by_def sql_eq_def parse_eval sample_defs)

text \<open>
  C8, as stated, fails. The admin listing orders by \<open>created_at DESC\<close>: of the two pending
  comments of \<open>blog_db\<close> the later one comes first.
\<close>

theorem admin_comments_newest_first:
  "get_admin_comments blog_db []
     = (200, AdminCommentsBody [(comment3, post1), (comment2, post1)]
          \<lparr>pg_page = Some 1, pg_limit = Some 20, pg_total = Some 2, pg_pages = Some 1\<rparr>)
   \<and> \<not> sql_le (m_created_at comment3) (m_created_at comment2)"
  by (simp add: admin_listing) (simp add: sample_defs js_def)

text \<open>
  C8, amended. The comments of a post, listed on their own or with the post, are in
  ascending order of \<open>created_at\<close>; the comments of the admin listing are in descending
  order of \<open>created_at\<close>.
\<close>

theorem comment_listings_order:
  "(get_post_comments d postIdParam q = (200, CommentsBody cs) \<longrightarrow>
      sorted_wrt (\<lambda>a b. sql_le (m_created_at a) (m_created_at b)) cs)
   \<and> (get_post h d slug q = (200, PostCommentsBody j cs') \<longrightarrow>
      sorted_wrt (\<lambda>a b. sql_le (m_created_at a) (m_created_at b)) cs')
   \<and> (get_admin_comments d q = (200, AdminCommentsBody rows pg) \<longrightarrow>
      sorted_wrt (\<lambda>a b. sql_le (m_created_at (fst b)) (m_created_at (fst a))) rows)"
proof (intro conjI impI)
  assume "get_post_comments d postIdParam q = (200, CommentsBody cs)"
  then have "cs = comments_of_post d (bind_num (parseInt postIdParam))
                    (SText (or_default (query_param q ''status'') (js ''approved'')))"
    by (simp add: get_post_comments_def Let_def)
  then show "sorted_wrt (\<lambda>a b. sql_le (m_created_at a) (m_created_at b)) cs"
    using sorted_asc_by[of m_created_at]
    by (simp add: comments_of_post_def asc_by_def[abs_def])
next
  assume "get_post h d slug q = (200, PostCommentsBody j cs')"
  then obtain v where "cs' = comments_of_post d v (SText (js ''approved''))"
    by (auto simp: get_post_def Let_def split: option.splits if_splits prod.splits)
  then show "sorted_wrt (\<lambda>a b. sql_le (m_created_at a) (m_created_at b)) cs'"
    using sorted_asc_by[of m_created_at]
    by (simp add: comments_of_post_def asc_by_def[abs_def])
next
  assume "get_admin_comments d q = (200, AdminCommentsBody rows pg)"
  then obtain st l off where "admin_comments_query d st l off = Some rows"
    by (auto simp: get_admin_comments_def Let_def split: option.splits)
  then show "sorted_wrt (\<lambda>a b. sql_le (m_created_at (fst b)) (m_created_at (fst a))) rows"
    using sorted_desc_by[of "\<lambda>r. m_created_at (fst r)"] sorted_limit_offset
    unfolding admin_comments_query_def desc_by_def[abs_def] by blast
qed

theorem comment_listings_order_witness:
  "get_post_comments blog_db (js ''1'') [(js ''status'', js ''pending'')]
     = (200, CommentsBody [comment2, comment3])
   \<and> sql_le (m_created_at comment2) (m_created_at comment3)
   \<and> get_admin_comments blog_db []
     = (200, AdminCommentsBody [(comment3, post1), (comment2, post1)]
          \<lparr>pg_page = Some 1, pg_limit = Some 20, pg_total = Some 2, pg_pages = Some 1\<rparr>)
   \<and> sql_le (m_created_at comment2) (m_created_at comment3)"
proof -
  from comment_listings_order[of blog_db "js ''1''" "[(js ''status'', js ''pending'')]"
      "[comment2, comment3]" test_host "[]" hi_json "[]" "[(comment3, post1), (comment2, post1)]"
      "\<lparr>pg_page = Some 1, pg_limit = Some 20, pg_total = Some 2, pg_pages = Some 1\<rparr>"]
    pending_listing admin_listing
  have "sql_le (m_created_at comment2) (m_created_at comment3)" by simp
  with pending_listing admin_listing show ?thesis by simp
qed

section \<open>The public comment listing\<close>

lemma js_segments: "js ''posts'' \<noteq> js ''admin''" by (simp add: js_def)

lemma comments_route:
  "app h now d \<lparr>rq_method = GET, rq_path = [js ''api'', js ''posts'', postIdParam, js ''comments''],
       rq_query = q, rq_authorization = a, rq_json = b\<rparr>
   = Some (get_post_comments d postIdParam q, d)"
  by (simp add: app_def route_def js_segments Let_def)

lemma comments_of_post_mset:
  "mset (comments_of_post d (SInt pid) (SText s))
     = mset (filter (\<lambda>m. m_post_id m = SInt pid \<and> m_status m = SText s) (comments d))"
proof -
  have "\<And>v t. sql_eq v (SText t) = (v = SText t)" "\<And>v i. sql_eq v (SInt i) = (v = SInt i)"
    by (auto simp: sql_eq_def)
  then show ?thesis by (simp add: comments_of_post_def mset_order_by)
qed

text \<open>
  C10, as stated, fails. With an empty \<open>status\<close> parameter the listing is that of the
  approved comments, not of the comments whose status is the empty text: the default
  applies to an empty parameter as to an absent one.
\<close>

theorem public_comments_empty_status:
  "app test_host t_early blog_db (comments_request [])
     = Some ((200, CommentsBody [comment1]), blog_db)
   \<and> m_status comment1 = SText (js ''approved'')
   \<and> js ''approved'' \<noteq> []"
  unfolding comments_request_def comments_route
  by (simp add: get_post_comments_def comments_of_post_def bind_num_def
      order_by_def asc_by_def sql_eq_def parse_eval sample_defs)

text \<open>
  C10, amended. For a post id that parses as an integer and every \<open>Authorization\<close> header,
  present or not: with a non-empty status \<open>s\<close> the listing answers 200 with exactly the
  comments of the post whose status is \<open>s\<close>; with the parameter absent or empty, with
  exactly its approved comments. The storage is left as it was.
\<close>

theorem public_comments_of_any_status:
  assumes "parseInt postIdParam = Some pid"
  shows "(query_param q ''status'' = Some s \<and> s \<noteq> [] \<longrightarrow>
           (\<exists>cs. app h now d \<lparr>rq_method = GET,
                     rq_path = [js ''api'', js ''posts'', postIdParam, js ''comments''],
                     rq_query = q, rq_authorization = a, rq_json = b\<rparr>
                   = Some ((200, CommentsBody cs), d)
                 \<and> mset cs = mset (filter (\<lambda>m. m_post_id m = SInt pid \<and> m_status m = SText s)
                                     (comments d))))
       \<and> (query_param q ''status'' = None \<or> query_param q ''status'' = Some [] \<longrightarrow>
           (\<exists>cs. app h now d \<lparr>rq_method = GET,
                     rq_path = [js ''api'', js ''posts'', postIdParam, js ''comments''],
                     rq_query = q, rq_authorization = a, rq_json = b\<rparr>
                   = Some ((200, CommentsBody cs), d)
                 \<and> mset cs = mset (filter (\<lambda>m. m_post_id m = SInt pid
                                              \<and> m_status m = SText (js ''approved''))
                                     (comments d))))"
  using assms
  by (auto simp: comments_route get_post_comments_def Let_def bind_num_def or_default_def
      comments_of_post_mset)

lemma pending_request:
  "app test_host t_early blog_db (comments_request (js ''pending''))
     = Some ((200, CommentsBody [comment2, comment3]), blog_db)"
  unfolding comments_request_def comments_route
  by (simp add: get_post_comments_def comments_of_post_def bind_num_def
      order_by_def asc_by_def sql_eq_def parse_eval sample_defs)

lemma pending_of_blog:
  "filter (\<lambda>m. m_post_id m = SInt 1 \<and> m_status m = SText (js ''pending'')) (comments blog_db)
     = [comment2, comment3]"
  by (simp add: sample_defs js_def)

lemma parse_one: "parseInt (js ''1'') = Some 1"
  by (simp add: parse_eval)

theorem public_comments_of_any_status_witness:
  "parseInt (js ''1'') = Some 1
   \<and> query_param [(js ''status'', js ''pending'')] ''status'' = Some (js ''pending'')
   \<and> js ''pending'' \<noteq> []
   \<and> app test_host t_early blog_db (comments_request (js ''pending''))
       = Some ((200, CommentsBody [comment2, comment3]), blog_db)
   \<and> mset [comment2, comment3]
       = mset (filter (\<lambda>m. m_post_id m = SInt 1 \<and> m_status m = SText (js ''pending''))
                 (comments blog_db))"
proof -
  have q: "query_param [(js ''status'', js ''pending'')] ''status'' = Some (js ''pending'')"
    and ne: "js ''pending'' \<noteq> []"
    by (simp_all add: query_param_def js_def)
  from public_comments_of_any_status[OF parse_one, of "[(js ''status'', js ''pending'')]"
      "js ''pending''" test_host t_early blog_db None blank_body] q ne
  have "\<exists>cs. app test_host t_early blog_db (comments_request (js ''pending''))
               = Some ((200, CommentsBody cs), blog_db)
            \<and> mset cs = mset (filter (\<lambda>m. m_post_id m = SInt 1
                                         \<and> m_status m = SText (js ''pending''))
                                (comments blog_db))"
    by (simp add: comments_request_def)
  with pending_request parse_one q ne show ?thesis by auto
qed

end
